theory Spec2Isabelle
  imports Complex_Main
begin

section \<open>An interactive physics scene: object registry, physics engine facade, frame loop\<close>

text \<open>
  The repository is three JavaScript classes and a driver:
  \<^item> \<^verbatim>\<open>ObjectManager\<close> (the object registry): \<^verbatim>\<open>createObject\<close>, \<^verbatim>\<open>update\<close>,
    \<^verbatim>\<open>removeObject\<close>, \<^verbatim>\<open>clearAll\<close>, \<^verbatim>\<open>getCount\<close>;
  \<^item> \<^verbatim>\<open>PhysicsEngine\<close>: \<^verbatim>\<open>createBody\<close>, \<^verbatim>\<open>removeBody\<close>, \<^verbatim>\<open>update\<close>,
    \<^verbatim>\<open>setPaused\<close>, \<^verbatim>\<open>setTimeScale\<close>, \<^verbatim>\<open>clearAllBodies\<close>;
  \<^item> \<^verbatim>\<open>PhysicsRenderer\<close>: the scene graph and \<^verbatim>\<open>render\<close>;
  \<^item> \<^verbatim>\<open>animate\<close> in the driver: one frame.

  Conventions of the embedding.
  \<^item> JavaScript numbers are modelled as \<open>real\<close>; the counter \<^verbatim>\<open>objectId\<close> and the
    segment counts, which only ever hold small non-negative integers, as \<open>nat\<close>
    (a JavaScript number counts exactly up to \<open>2 ^ 53\<close>).
  \<^item> Meshes and bodies are mutable objects that are shared by reference (the registry
    entry, the scene graph and the physics world all point to them), so they live in
    stores indexed by references; \<^verbatim>\<open>new\<close> takes the next unused reference.
  \<^item> A registry entry is never mutated after its creation; it is a value that carries
    its own reference \<open>obj_ref\<close>, so that equality of entries is the identity that
    \<^verbatim>\<open>Array.prototype.indexOf\<close> compares.
  \<^item> \<^verbatim>\<open>Math.random()\<close> and \<^verbatim>\<open>performance.now()\<close> are inputs: their results are
    passed as arguments.
  \<^item> The two libraries (cannon.js, three.js) are not part of the repository. Their
    constructors are datatype constructors that record the arguments they were
    given, and \<^verbatim>\<open>new CANNON.Sphere\<close> throws for a negative radius;
    \<^verbatim>\<open>World.addBody\<close> and \<^verbatim>\<open>Object3D.add\<close> append a new element,
    \<^verbatim>\<open>World.removeBody\<close> and \<^verbatim>\<open>Object3D.remove\<close> delete the element found by
    \<^verbatim>\<open>indexOf\<close> (nothing when it is absent), \<^verbatim>\<open>copy\<close> assigns the components, and
    \<^verbatim>\<open>World.step\<close> is a parameter of the model.
\<close>

subsection \<open>Data of the two libraries\<close>

type_synonym ref = nat

datatype vec3 = Vec3 (vx: real) (vy: real) (vz: real)

datatype quat = Quaternion (qx: real) (qy: real) (qz: real) (qw: real)

text \<open>Geometries of three.js, with the arguments of their constructors.\<close>

datatype geometry =
    BoxGeometry real real real
  | SphereGeometry real nat nat
  | CylinderGeometry real real real nat
  | ConeGeometry real real nat
  | TorusGeometry real real nat nat

record material =
  color :: nat
  metalness :: real
  roughness :: real

record mesh =
  geometry :: geometry
  material :: material
  castShadow :: bool
  receiveShadow :: bool
  mesh_position :: vec3
  mesh_quaternion :: quat
  geometry_disposed :: bool
  material_disposed :: bool

text \<open>Shapes of cannon.js, with the arguments of their constructors.\<close>

datatype cannon_shape =
    Box vec3
  | Sphere real
  | Cylinder real real real nat
  | Plane

datatype cannon_material = DefaultMaterial | GroundMaterial

record body =
  shape :: cannon_shape
  mass :: real
  body_material :: cannon_material
  body_position :: vec3
  body_quaternion :: quat
  velocity :: vec3
  angularVelocity :: vec3
  linearDamping :: real
  angularDamping :: real

text \<open>
  The shape description that \<^verbatim>\<open>createObject\<close> hands to \<^verbatim>\<open>createBody\<close>: an object
  literal tagged by its \<^verbatim>\<open>type\<close> field. \<open>OtherDesc t\<close> stands for a description whose
  \<^verbatim>\<open>type\<close> is \<open>t\<close>, none of the four that \<^verbatim>\<open>createBody\<close> knows.
\<close>

datatype shape_desc =
    BoxDesc real
  | SphereDesc real
  | CylinderDesc real real real nat
  | ConeDesc real real nat
  | OtherDesc string

fun desc_type :: "shape_desc \<Rightarrow> string" where
  "desc_type (BoxDesc sz) = ''box''"
| "desc_type (SphereDesc radius) = ''sphere''"
| "desc_type (CylinderDesc radiusTop radiusBottom height segments) = ''cylinder''"
| "desc_type (ConeDesc radius height segments) = ''cone''"
| "desc_type (OtherDesc t) = t"

subsection \<open>The state of the application\<close>

text \<open>An entry of \<^verbatim>\<open>ObjectManager.objects\<close>: \<^verbatim>\<open>{ id, type, mesh, body }\<close>.\<close>

record tracked =
  obj_ref :: ref
  obj_id :: nat
  obj_type :: string
  obj_mesh :: ref
  obj_body :: ref

record app =
  objects :: "tracked list"
  objectId :: nat
  world_bodies :: "ref list"
  timeStep :: real
  maxSubSteps :: nat
  timeScale :: real
  isPaused :: bool
  defaultMass :: real
  scene_children :: "ref list"
  stats_fps :: int
  stats_lastTime :: real
  stats_frames :: nat
  render_calls :: nat
  lastTime :: real
  dom_fps :: int
  dom_objectCount :: nat
  mesh_heap :: "ref \<Rightarrow> mesh"
  body_heap :: "ref \<Rightarrow> body"
  next_ref :: ref

text \<open>
  \<open>render_calls\<close> counts the calls of \<^verbatim>\<open>WebGLRenderer.render\<close>; \<open>dom_fps\<close> and
  \<open>dom_objectCount\<close> are the two text nodes that \<^verbatim>\<open>updateStats\<close> writes.
\<close>

subsection \<open>PhysicsEngine\<close>

text \<open>\<^verbatim>\<open>new CANNON.Body({...})\<close> followed by \<^verbatim>\<open>addShape\<close>: velocity and orientation
  start at rest.\<close>

definition new_body :: "body \<Rightarrow> app \<Rightarrow> ref \<times> app" where
  "new_body b s =
     (next_ref s, s\<lparr>body_heap := (body_heap s)(next_ref s := b), next_ref := Suc (next_ref s)\<rparr>)"

definition world_addBody :: "ref \<Rightarrow> app \<Rightarrow> app" where
  "world_addBody b s = s\<lparr>world_bodies := world_bodies s @ [b]\<rparr>"

definition world_removeBody :: "ref \<Rightarrow> app \<Rightarrow> app" where
  "world_removeBody b s = s\<lparr>world_bodies := remove1 b (world_bodies s)\<rparr>"

text \<open>
  The one exception of the two classes: \<^verbatim>\<open>new CANNON.Sphere(radius)\<close> throws
  \<^verbatim>\<open>Error('The sphere radius cannot be negative.')\<close> when \<^verbatim>\<open>radius < 0\<close>. A
  function that can throw returns \<open>Inl\<close> of the error, or \<open>Inr\<close> of its value,
  together with the state it leaves.
\<close>

datatype error = SphereRadiusNegative

text \<open>The \<^verbatim>\<open>switch (shape.type)\<close> of \<^verbatim>\<open>createBody\<close>.\<close>

fun cannonShape :: "shape_desc \<Rightarrow> error + cannon_shape" where
  "cannonShape (BoxDesc sz) = Inr (Box (Vec3 (sz / 2) (sz / 2) (sz / 2)))"
| "cannonShape (SphereDesc radius) =
     (if radius < 0 then Inl SphereRadiusNegative else Inr (Sphere radius))"
| "cannonShape (CylinderDesc radiusTop radiusBottom height segments) =
     Inr (Cylinder radiusTop radiusBottom height segments)"
| "cannonShape (ConeDesc radius height segments) =
     Inr (Cylinder (1 / 100) radius height segments)"
| "cannonShape (OtherDesc t) = Inr (Sphere 1)"

text \<open>
  \<^verbatim>\<open>createBody\<close> builds the shape first: when the constructor of the shape throws,
  no body has been made and the state is the one of the call.
\<close>

definition createBody ::
  "shape_desc \<Rightarrow> real \<Rightarrow> vec3 \<Rightarrow> real \<times> real \<times> real \<Rightarrow> app \<Rightarrow> (error + ref) \<times> app" where
  "createBody shp m position rnd s =
     (case rnd of (r1, r2, r3) \<Rightarrow>
      (case cannonShape shp of
         Inl e \<Rightarrow> (Inl e, s)
       | Inr cshape \<Rightarrow>
          (let (b, s1) = new_body
                 \<lparr>shape = cshape, mass = m, body_material = DefaultMaterial,
                  body_position = Vec3 (vx position) (vy position) (vz position),
                  body_quaternion = Quaternion 0 0 0 1,
                  velocity = Vec3 0 0 0,
                  angularVelocity =
                    Vec3 ((r1 - 1 / 2) * 2) ((r2 - 1 / 2) * 2) ((r3 - 1 / 2) * 2),
                  linearDamping = 1 / 10, angularDamping = 1 / 10\<rparr> s
           in (Inr b, world_addBody b s1))))"

definition removeBody :: "ref \<Rightarrow> app \<Rightarrow> app" where
  "removeBody b s = world_removeBody b s"

text \<open>
  \<^verbatim>\<open>World.step\<close> is a parameter: from the fixed time step, the scaled frame time, the
  number of substeps, the bodies of the world and the body store it gives the new
  state of motion of a body. It writes the motion of the bodies of the world and
  nothing else.
\<close>

record motion =
  to_position :: vec3
  to_quaternion :: quat
  to_velocity :: vec3
  to_angularVelocity :: vec3

type_synonym stepper = "real \<Rightarrow> real \<Rightarrow> nat \<Rightarrow> ref list \<Rightarrow> (ref \<Rightarrow> body) \<Rightarrow> ref \<Rightarrow> motion"

definition world_step :: "stepper \<Rightarrow> real \<Rightarrow> real \<Rightarrow> nat \<Rightarrow> app \<Rightarrow> app" where
  "world_step wstep fixed dt n s =
     s\<lparr>body_heap := (\<lambda>r.
          if r \<in> set (world_bodies s)
          then (let m = wstep fixed dt n (world_bodies s) (body_heap s) r in
                (body_heap s r)\<lparr>body_position := to_position m,
                                body_quaternion := to_quaternion m,
                                velocity := to_velocity m,
                                angularVelocity := to_angularVelocity m\<rparr>)
          else body_heap s r)\<rparr>"

definition PhysicsEngine_update :: "stepper \<Rightarrow> real \<Rightarrow> app \<Rightarrow> app" where
  "PhysicsEngine_update wstep deltaTime s =
     (if \<not> isPaused s
      then (let dt = deltaTime * timeScale s in world_step wstep (timeStep s) dt (maxSubSteps s) s)
      else s)"

definition setTimeScale :: "real \<Rightarrow> app \<Rightarrow> app" where
  "setTimeScale scale s = s\<lparr>timeScale := max (1 / 10) (min 2 scale)\<rparr>"

definition setPaused :: "bool \<Rightarrow> app \<Rightarrow> app" where
  "setPaused paused s = s\<lparr>isPaused := paused\<rparr>"

definition dynamic :: "app \<Rightarrow> ref \<Rightarrow> bool" where
  "dynamic s b = (mass (body_heap s b) > 0)"

definition clearAllBodies :: "app \<Rightarrow> app" where
  "clearAllBodies s =
     (let bodiesToRemove = filter (dynamic s) (world_bodies s)
      in fold world_removeBody bodiesToRemove s)"

subsection \<open>PhysicsRenderer\<close>

definition scene_add :: "ref \<Rightarrow> app \<Rightarrow> app" where
  "scene_add m s = s\<lparr>scene_children := scene_children s @ [m]\<rparr>"

definition scene_remove :: "ref \<Rightarrow> app \<Rightarrow> app" where
  "scene_remove m s = s\<lparr>scene_children := remove1 m (scene_children s)\<rparr>"

definition updateFPS :: "real \<Rightarrow> app \<Rightarrow> app" where
  "updateFPS currentTime s =
     (let s1 = s\<lparr>stats_frames := Suc (stats_frames s)\<rparr> in
      if currentTime \<ge> stats_lastTime s1 + 1000
      then s1\<lparr>stats_fps :=
                 \<lfloor>(real (stats_frames s1) * 1000) / (currentTime - stats_lastTime s1) + 1 / 2\<rfloor>,
              stats_frames := 0,
              stats_lastTime := currentTime\<rparr>
      else s1)"

definition PhysicsRenderer_render :: "real \<Rightarrow> app \<Rightarrow> app" where
  "PhysicsRenderer_render currentTime s =
     updateFPS currentTime (s\<lparr>render_calls := Suc (render_calls s)\<rparr>)"

subsection \<open>ObjectManager\<close>

definition colors :: "string \<Rightarrow> nat option" where
  "colors = map_of
     [(''box'', 65416), (''sphere'', 54527), (''cylinder'', 11684851),
      (''cone'', 16739179), (''torus'', 16767293)]"

text \<open>\<^verbatim>\<open>new THREE.Mesh(geometry, material)\<close> with the two shadow flags set.\<close>

definition new_mesh :: "geometry \<Rightarrow> nat \<Rightarrow> app \<Rightarrow> ref \<times> app" where
  "new_mesh g c s =
     (next_ref s,
      s\<lparr>mesh_heap := (mesh_heap s)(next_ref s :=
           \<lparr>geometry = g,
            material = \<lparr>color = c, metalness = 3 / 10, roughness = 6 / 10\<rparr>,
            castShadow = True, receiveShadow = True,
            mesh_position = Vec3 0 0 0, mesh_quaternion = Quaternion 0 0 0 1,
            geometry_disposed = False, material_disposed = False\<rparr>),
        next_ref := Suc (next_ref s)\<rparr>)"

definition createBox :: "real \<Rightarrow> nat \<Rightarrow> app \<Rightarrow> ref \<times> app" where
  "createBox sz c s = new_mesh (BoxGeometry sz sz sz) c s"

definition createSphere :: "real \<Rightarrow> nat \<Rightarrow> app \<Rightarrow> ref \<times> app" where
  "createSphere radius c s = new_mesh (SphereGeometry radius 32 32) c s"

definition createCylinder :: "real \<Rightarrow> real \<Rightarrow> nat \<Rightarrow> app \<Rightarrow> ref \<times> app" where
  "createCylinder radius height c s = new_mesh (CylinderGeometry radius radius height 32) c s"

definition createCone :: "real \<Rightarrow> real \<Rightarrow> nat \<Rightarrow> app \<Rightarrow> ref \<times> app" where
  "createCone radius height c s = new_mesh (ConeGeometry radius height 32) c s"

definition createTorus :: "real \<Rightarrow> real \<Rightarrow> nat \<Rightarrow> app \<Rightarrow> ref \<times> app" where
  "createTorus radius tube c s = new_mesh (TorusGeometry radius tube 16 100) c s"

text \<open>
  The \<^verbatim>\<open>switch (type)\<close> of \<^verbatim>\<open>createObject\<close>: for each case the call that makes the
  mesh and the description given to \<^verbatim>\<open>createBody\<close>; \<open>None\<close> is the \<^verbatim>\<open>default\<close> case.
\<close>

definition createObject_switch ::
  "string \<Rightarrow> real \<Rightarrow> nat \<Rightarrow> ((app \<Rightarrow> ref \<times> app) \<times> shape_desc) option" where
  "createObject_switch type sz c =
     (if type = ''box'' then Some (createBox sz c, BoxDesc sz)
      else if type = ''sphere'' then Some (createSphere (sz / 2) c, SphereDesc (sz / 2))
      else if type = ''cylinder''
        then Some (createCylinder (sz / 2) sz c, CylinderDesc (sz / 2) (sz / 2) sz 8)
      else if type = ''cone''
        then Some (createCone (sz / 2) sz c, ConeDesc (sz / 2) sz 8)
      else if type = ''torus''
        then Some (createTorus (sz / 2) (sz / 4) c, SphereDesc (sz / 2))
      else None)"

text \<open>
  \<^verbatim>\<open>createObject(type, position, size = 2)\<close>: the size is optional. The result
  \<open>Inr None\<close> is \<^verbatim>\<open>null\<close>. In each case the mesh is made first, then the body (which
  enters the world), then the mesh enters the scene and the entry is pushed. When
  \<^verbatim>\<open>createBody\<close> throws, \<^verbatim>\<open>createObject\<close> throws too: the mesh has been made, but
  it is in no scene, and nothing has been pushed.
\<close>

definition createObject ::
  "string \<Rightarrow> vec3 \<Rightarrow> real option \<Rightarrow> real \<times> real \<times> real \<Rightarrow> app \<Rightarrow>
   (error + tracked option) \<times> app" where
  "createObject type position size_arg rnd s =
     (let sz = (case size_arg of None \<Rightarrow> 2 | Some v \<Rightarrow> v);
          c = (case colors type of None \<Rightarrow> 65416 | Some v \<Rightarrow> if v = 0 then 65416 else v);
          m = defaultMass s
      in case createObject_switch type sz c of
           None \<Rightarrow> (Inr None, s)
         | Some (make_mesh, shp) \<Rightarrow>
             let (msh, s1) = make_mesh s
             in (case createBody shp m position rnd s1 of
                   (Inl e, s2) \<Rightarrow> (Inl e, s2)
                 | (Inr bdy, s2) \<Rightarrow>
                    (let s3 = scene_add msh s2;
                         obj = \<lparr>obj_ref = next_ref s3, obj_id = objectId s3, obj_type = type,
                                obj_mesh = msh, obj_body = bdy\<rparr>;
                         s4 = s3\<lparr>objectId := Suc (objectId s3), next_ref := Suc (next_ref s3)\<rparr>
                     in (Inr (Some obj), s4\<lparr>objects := objects s4 @ [obj]\<rparr>))))"

text \<open>\<^verbatim>\<open>update()\<close>: copy position and quaternion from the body to the mesh, entry by
  entry.\<close>

definition sync_one :: "tracked \<Rightarrow> app \<Rightarrow> app" where
  "sync_one obj s =
     s\<lparr>mesh_heap := (mesh_heap s)(obj_mesh obj :=
          (mesh_heap s (obj_mesh obj))
            \<lparr>mesh_position := body_position (body_heap s (obj_body obj)),
             mesh_quaternion := body_quaternion (body_heap s (obj_body obj))\<rparr>)\<rparr>"

definition ObjectManager_update :: "app \<Rightarrow> app" where
  "ObjectManager_update s = fold sync_one (objects s) s"

definition dispose :: "ref \<Rightarrow> app \<Rightarrow> app" where
  "dispose m s =
     s\<lparr>mesh_heap := (mesh_heap s)(m :=
          (mesh_heap s m)\<lparr>geometry_disposed := True, material_disposed := True\<rparr>)\<rparr>"

definition removeObject :: "tracked \<Rightarrow> app \<Rightarrow> app" where
  "removeObject obj s =
     (let s1 = scene_remove (obj_mesh obj) s;
          s2 = dispose (obj_mesh obj) s1;
          s3 = removeBody (obj_body obj) s2
      in s3\<lparr>objects := remove1 obj (objects s3)\<rparr>)"

definition clearAll :: "app \<Rightarrow> app" where
  "clearAll s = clearAllBodies (fold removeObject (objects s) s)"

definition getCount :: "app \<Rightarrow> nat" where
  "getCount s = length (objects s)"

subsection \<open>The driver\<close>

definition updateStats :: "app \<Rightarrow> app" where
  "updateStats s = s\<lparr>dom_fps := stats_fps s, dom_objectCount := getCount s\<rparr>"

text \<open>One frame: \<open>currentTime\<close> is what \<^verbatim>\<open>performance.now()\<close> returns in \<^verbatim>\<open>animate\<close>,
  \<open>fpsTime\<close> what it returns in \<^verbatim>\<open>updateFPS\<close>.\<close>

definition animate :: "stepper \<Rightarrow> real \<Rightarrow> real \<Rightarrow> app \<Rightarrow> app" where
  "animate wstep currentTime fpsTime s =
     (let deltaTime = (currentTime - lastTime s) / 1000;
          s0 = s\<lparr>lastTime := currentTime\<rparr>;
          s1 = PhysicsEngine_update wstep deltaTime s0;
          s2 = ObjectManager_update s1;
          s3 = PhysicsRenderer_render fpsTime s2
      in updateStats s3)"

subsection \<open>Construction\<close>

text \<open>
  \<^verbatim>\<open>Quaternion.setFromEuler(x, y, z)\<close> of cannon.js in its default order \<^verbatim>\<open>XYZ\<close>.
\<close>

definition setFromEuler :: "real \<Rightarrow> real \<Rightarrow> real \<Rightarrow> quat" where
  "setFromEuler ex ey ez =
     (let c1 = cos (ex / 2); c2 = cos (ey / 2); c3 = cos (ez / 2);
          s1 = sin (ex / 2); s2 = sin (ey / 2); s3 = sin (ez / 2)
      in Quaternion (s1 * c2 * c3 + c1 * s2 * s3) (c1 * s2 * c3 - s1 * c2 * s3)
                    (c1 * c2 * s3 + s1 * s2 * c3) (c1 * c2 * c3 - s1 * s2 * s3))"

text \<open>The ground of \<^verbatim>\<open>PhysicsEngine.createGround\<close>: a static plane (mass 0).\<close>

definition groundBody :: body where
  "groundBody =
     \<lparr>shape = Plane, mass = 0, body_material = GroundMaterial,
      body_position = Vec3 0 0 0, body_quaternion = setFromEuler (- pi / 2) 0 0,
      velocity = Vec3 0 0 0, angularVelocity = Vec3 0 0 0,
      linearDamping = 1 / 100, angularDamping = 1 / 100\<rparr>"

text \<open>What an unused reference of the mesh store and of the body store holds.\<close>

definition blank_mesh :: mesh where
  "blank_mesh =
     \<lparr>geometry = BoxGeometry 0 0 0,
      material = \<lparr>color = 0, metalness = 0, roughness = 0\<rparr>,
      castShadow = False, receiveShadow = False,
      mesh_position = Vec3 0 0 0, mesh_quaternion = Quaternion 0 0 0 1,
      geometry_disposed = False, material_disposed = False\<rparr>"

definition blank_body :: body where
  "blank_body =
     \<lparr>shape = Plane, mass = 0, body_material = DefaultMaterial,
      body_position = Vec3 0 0 0, body_quaternion = Quaternion 0 0 0 1,
      velocity = Vec3 0 0 0, angularVelocity = Vec3 0 0 0,
      linearDamping = 0, angularDamping = 0\<rparr>"

text \<open>
  The state after \<^verbatim>\<open>init()\<close> of the driver: \<^verbatim>\<open>new PhysicsEngine()\<close> has put the
  ground body (reference 0) into the world; \<^verbatim>\<open>new PhysicsRenderer(...)\<close> has put
  three lights, the grid, the ground mesh and the axes (references 1 to 6) into the
  scene; the registry is empty and its counter is 0. \<open>t0\<close> and \<open>t1\<close> are the two
  readings of \<^verbatim>\<open>performance.now()\<close> (module load, construction of the renderer).
\<close>

definition init :: "real \<Rightarrow> real \<Rightarrow> app" where
  "init t0 t1 =
     \<lparr>objects = [], objectId = 0,
      world_bodies = [0], timeStep = 1 / 60, maxSubSteps = 3, timeScale = 1,
      isPaused = False, defaultMass = 5,
      scene_children = [1, 2, 3, 4, 5, 6],
      stats_fps = 0, stats_lastTime = t1, stats_frames = 0, render_calls = 0,
      lastTime = t0, dom_fps = 0, dom_objectCount = 0,
      mesh_heap = (\<lambda>r. blank_mesh),
      body_heap = (\<lambda>r. blank_body)(0 := groundBody),
      next_ref = 7\<rparr>"

subsection \<open>Runs of the application\<close>

text \<open>
  What the driver's event handlers and frame callback do to the state: the calls of
  the public methods, in any order and with any arguments. A call of
  \<^verbatim>\<open>createObject\<close> that throws ends its event handler; the application goes on from
  the state that the call has left.
\<close>

datatype op =
    CreateObject string vec3 "real option" "real \<times> real \<times> real"
  | RemoveObject tracked
  | ClearAll
  | Update
  | PhysicsUpdate stepper real
  | SetPaused bool
  | SetTimeScale real
  | Animate stepper real real

fun apply_op :: "op \<Rightarrow> app \<Rightarrow> app" where
  "apply_op (CreateObject type position size_arg rnd) s = snd (createObject type position size_arg rnd s)"
| "apply_op (RemoveObject obj) s = removeObject obj s"
| "apply_op ClearAll s = clearAll s"
| "apply_op Update s = ObjectManager_update s"
| "apply_op (PhysicsUpdate wstep deltaTime) s = PhysicsEngine_update wstep deltaTime s"
| "apply_op (SetPaused paused) s = setPaused paused s"
| "apply_op (SetTimeScale scale) s = setTimeScale scale s"
| "apply_op (Animate wstep currentTime fpsTime) s = animate wstep currentTime fpsTime s"

definition run :: "op list \<Rightarrow> app \<Rightarrow> app" where
  "run ops s = fold apply_op ops s"

text \<open>The ids of the entries that the calls of \<^verbatim>\<open>createObject\<close> in a run return, in
  the order of the calls.\<close>

fun issued_by :: "op \<Rightarrow> app \<Rightarrow> nat list" where
  "issued_by (CreateObject type position size_arg rnd) s =
     (case fst (createObject type position size_arg rnd s) of
        Inr (Some obj) \<Rightarrow> [obj_id obj] | _ \<Rightarrow> [])"
| "issued_by other s = []"

fun issued :: "op list \<Rightarrow> app \<Rightarrow> nat list" where
  "issued [] s = []"
| "issued (a # ops) s = issued_by a s @ issued ops (apply_op a s)"

definition reachable :: "app \<Rightarrow> bool" where
  "reachable s = (\<exists>ops t0 t1. s = run ops (init t0 t1))"

text \<open>The five kinds of the registry.\<close>

definition supported :: "string \<Rightarrow> bool" where
  "supported type = (type \<in> {''box'', ''sphere'', ''cylinder'', ''cone'', ''torus''})"

subsection \<open>Invariants of the reachable states\<close>

definition ids_ok :: "app \<Rightarrow> bool" where
  "ids_ok s = ((\<forall>obj \<in> set (objects s). obj_id obj < objectId s) \<and>
               distinct (map obj_id (objects s)))"

definition refs_ok :: "app \<Rightarrow> bool" where
  "refs_ok s = ((\<forall>obj \<in> set (objects s). obj_mesh obj < next_ref s \<and> obj_body obj < next_ref s) \<and>
                distinct (map obj_mesh (objects s)) \<and>
                (\<forall>r \<in> set (scene_children s). r < next_ref s) \<and> distinct (scene_children s) \<and>
                (\<forall>r \<in> set (world_bodies s). r < next_ref s) \<and> distinct (world_bodies s))"

definition mass_ok :: "app \<Rightarrow> bool" where
  "mass_ok s = (0 < defaultMass s \<and> (\<forall>obj \<in> set (objects s). dynamic s (obj_body obj)))"

text \<open>
  The entry that \<^verbatim>\<open>createObject\<close> builds in state \<open>s\<close> for a supported kind: the mesh,
  the body and the entry itself take the next three references, the id is the
  current value of the counter.
\<close>

definition entry :: "string \<Rightarrow> app \<Rightarrow> tracked" where
  "entry type s = \<lparr>obj_ref = next_ref s + 2, obj_id = objectId s, obj_type = type,
                  obj_mesh = next_ref s, obj_body = Suc (next_ref s)\<rparr>"

definition registry_inv :: "app \<Rightarrow> bool" where
  "registry_inv s = (ids_ok s \<and> refs_ok s \<and> mass_ok s)"

text \<open>
  The entries that the calls of \<^verbatim>\<open>createObject\<close> in a run return, in the order of
  the calls.
\<close>

fun created_by :: "op \<Rightarrow> app \<Rightarrow> tracked list" where
  "created_by (CreateObject type position size_arg rnd) s =
     (case fst (createObject type position size_arg rnd s) of
        Inr (Some obj) \<Rightarrow> [obj] | _ \<Rightarrow> [])"
| "created_by other s = []"

fun created :: "op list \<Rightarrow> app \<Rightarrow> tracked list" where
  "created [] s = []"
| "created (a # ops) s = created_by a s @ created ops (apply_op a s)"

text \<open>
  An entry is gone when its mesh is out of the scene and disposed and its body is out
  of the world. An entry that a run has created is either tracked or gone.
\<close>

definition gone :: "app \<Rightarrow> tracked \<Rightarrow> bool" where
  "gone s obj = (obj_mesh obj \<notin> set (scene_children s) \<and>
                 obj_body obj \<notin> set (world_bodies s) \<and>
                 geometry_disposed (mesh_heap s (obj_mesh obj)) \<and>
                 material_disposed (mesh_heap s (obj_mesh obj)))"

definition settled :: "app \<Rightarrow> tracked \<Rightarrow> bool" where
  "settled s obj = ((obj \<in> set (objects s) \<or> gone s obj) \<and>
                    obj_mesh obj < next_ref s \<and> obj_body obj < next_ref s)"

subsection \<open>Concrete runs\<close>

text \<open>
  A box of size 2 dropped at \<open>(0, 10, 0)\<close>, a torus of the default size, a sphere of
  size \<open>- 2\<close> (the call that throws), the entry the first of them gets in a fresh
  application, and a physics step that moves body 8 to \<open>(0, 8, 0)\<close> and leaves every
  other body where it is.
\<close>

definition box_op :: op where
  "box_op = CreateObject ''box'' (Vec3 0 10 0) (Some 2) (1 / 2, 1 / 2, 1 / 2)"

definition torus_op :: op where
  "torus_op = CreateObject ''torus'' (Vec3 1 12 1) None (0, 0, 0)"

definition bad_sphere_op :: op where
  "bad_sphere_op = CreateObject ''sphere'' (Vec3 0 10 0) (Some (- 2)) (0, 0, 0)"

definition box_entry :: tracked where
  "box_entry = \<lparr>obj_ref = 9, obj_id = 0, obj_type = ''box'', obj_mesh = 7, obj_body = 8\<rparr>"

definition fall_to_8 :: stepper where
  "fall_to_8 fixed dt n bs h r =
     \<lparr>to_position = (if r = 8 then Vec3 0 8 0 else body_position (h r)),
      to_quaternion = body_quaternion (h r),
      to_velocity = velocity (h r),
      to_angularVelocity = angularVelocity (h r)\<rparr>"

section \<open>Properties\<close>

subsection \<open>The two switches\<close>

lemma switch_None: "\<not> supported type \<Longrightarrow> createObject_switch type sz c = None"
  by (simp add: supported_def createObject_switch_def)

lemma switch_SomeD:
  "createObject_switch type sz c = Some (mk, shp) \<Longrightarrow> supported type \<and> (\<exists>g. mk = new_mesh g c)"
  unfolding supported_def createObject_switch_def createBox_def createSphere_def
      createCylinder_def createCone_def createTorus_def
  by (auto split: if_splits)

lemma switch_Some:
  "supported type \<Longrightarrow> \<exists>g shp. createObject_switch type sz c = Some (new_mesh g c, shp)"
  by (cases "createObject_switch type sz c") (auto simp: switch_None dest: switch_SomeD, simp add: supported_def createObject_switch_def split: if_splits)

lemma switch_desc_type:
  "createObject_switch type sz c = Some (mk, shp) \<Longrightarrow>
   desc_type shp \<in> {''box'', ''sphere'', ''cylinder'', ''cone''}"
  unfolding createObject_switch_def by (auto split: if_splits)

lemma createBody_fallback:
  assumes "desc_type shp \<notin> {''box'', ''sphere'', ''cylinder'', ''cone''}"
  shows "cannonShape shp = Inr (Sphere 1)"
  using assms by (cases shp) simp_all

lemma switch_shape:
  assumes "createObject_switch type sz c = Some (mk, shp)" "0 \<le> sz"
  shows "\<exists>cs. cannonShape shp = Inr cs"
  using assms unfolding createObject_switch_def by (auto split: if_splits)

lemma createObject_switched:
  assumes "createObject_switch type (case size_arg of None \<Rightarrow> 2 | Some v \<Rightarrow> v)
             (case colors type of None \<Rightarrow> 65416 | Some v \<Rightarrow> if v = 0 then 65416 else v)
           = Some (new_mesh g c, shp)"
    and "cannonShape shp = Inr cs"
  shows "\<exists>s'. createObject type position size_arg rnd s = (Inr (Some (entry type s)), s') \<and>
           objects s' = objects s @ [entry type s] \<and>
           objectId s' = Suc (objectId s) \<and>
           next_ref s' = next_ref s + 3 \<and>
           world_bodies s' = world_bodies s @ [Suc (next_ref s)] \<and>
           scene_children s' = scene_children s @ [next_ref s] \<and>
           defaultMass s' = defaultMass s \<and>
           isPaused s' = isPaused s \<and>
           geometry (mesh_heap s' (next_ref s)) = g \<and>
           shape (body_heap s' (Suc (next_ref s))) = cs \<and>
           mass (body_heap s' (Suc (next_ref s))) = defaultMass s \<and>
           (\<forall>r. r \<noteq> Suc (next_ref s) \<longrightarrow> body_heap s' r = body_heap s r) \<and>
           (\<forall>r. r \<noteq> next_ref s \<longrightarrow> mesh_heap s' r = mesh_heap s r)"
  using assms
  by (cases rnd) (simp add: createObject_def Let_def new_mesh_def createBody_def new_body_def
      world_addBody_def scene_add_def entry_def)

lemma createObject_thrown:
  assumes "createObject_switch type (case size_arg of None \<Rightarrow> 2 | Some v \<Rightarrow> v)
             (case colors type of None \<Rightarrow> 65416 | Some v \<Rightarrow> if v = 0 then 65416 else v)
           = Some (new_mesh g c, shp)"
    and "cannonShape shp = Inl e"
  shows "\<exists>s'. createObject type position size_arg rnd s = (Inl e, s') \<and>
           objects s' = objects s \<and>
           objectId s' = objectId s \<and>
           next_ref s' = Suc (next_ref s) \<and>
           world_bodies s' = world_bodies s \<and>
           scene_children s' = scene_children s \<and>
           defaultMass s' = defaultMass s \<and>
           body_heap s' = body_heap s \<and>
           (\<forall>r. r \<noteq> next_ref s \<longrightarrow> mesh_heap s' r = mesh_heap s r)"
  using assms
  by (cases rnd) (simp add: createObject_def Let_def new_mesh_def createBody_def)

lemma createObject_unsupported:
  "\<not> supported type \<Longrightarrow> createObject type position size_arg rnd s = (Inr None, s)"
  by (simp add: createObject_def Let_def switch_None)

lemma createObject_supported:
  assumes "supported type" "0 \<le> (case size_arg of None \<Rightarrow> 2 | Some v \<Rightarrow> v)"
  shows "\<exists>s'. createObject type position size_arg rnd s = (Inr (Some (entry type s)), s') \<and>
           objects s' = objects s @ [entry type s] \<and>
           objectId s' = Suc (objectId s) \<and>
           next_ref s' = next_ref s + 3 \<and>
           world_bodies s' = world_bodies s @ [Suc (next_ref s)] \<and>
           scene_children s' = scene_children s @ [next_ref s]"
proof -
  from switch_Some[OF assms(1)] obtain g shp where
    sw: "createObject_switch type (case size_arg of None \<Rightarrow> 2 | Some v \<Rightarrow> v)
             (case colors type of None \<Rightarrow> 65416 | Some v \<Rightarrow> if v = 0 then 65416 else v)
           = Some (new_mesh g (case colors type of None \<Rightarrow> 65416 | Some v \<Rightarrow> if v = 0 then 65416 else v), shp)"
    by blast
  from switch_shape[OF sw assms(2)] obtain cs where "cannonShape shp = Inr cs" by blast
  from createObject_switched[OF sw this, of position rnd s] show ?thesis by blast
qed

text \<open>The three ways in which a call of \<^verbatim>\<open>createObject\<close> ends.\<close>

lemma createObject_cases:
  obtains
    (rejected) "createObject type position size_arg rnd s = (Inr None, s)"
  | (made) s' where "createObject type position size_arg rnd s = (Inr (Some (entry type s)), s')"
      "objects s' = objects s @ [entry type s]"
      "objectId s' = Suc (objectId s)"
      "next_ref s' = next_ref s + 3"
      "world_bodies s' = world_bodies s @ [Suc (next_ref s)]"
      "scene_children s' = scene_children s @ [next_ref s]"
      "defaultMass s' = defaultMass s"
      "mass (body_heap s' (Suc (next_ref s))) = defaultMass s"
      "\<forall>r. r \<noteq> Suc (next_ref s) \<longrightarrow> body_heap s' r = body_heap s r"
      "\<forall>r. r \<noteq> next_ref s \<longrightarrow> mesh_heap s' r = mesh_heap s r"
  | (thrown) e s' where "createObject type position size_arg rnd s = (Inl e, s')"
      "objects s' = objects s"
      "objectId s' = objectId s"
      "next_ref s' = Suc (next_ref s)"
      "world_bodies s' = world_bodies s"
      "scene_children s' = scene_children s"
      "defaultMass s' = defaultMass s"
      "body_heap s' = body_heap s"
      "\<forall>r. r \<noteq> next_ref s \<longrightarrow> mesh_heap s' r = mesh_heap s r"
proof (cases "createObject_switch type (case size_arg of None \<Rightarrow> 2 | Some v \<Rightarrow> v)
             (case colors type of None \<Rightarrow> 65416 | Some v \<Rightarrow> if v = 0 then 65416 else v)")
  case None
  then have "createObject type position size_arg rnd s = (Inr None, s)"
    by (simp add: createObject_def Let_def)
  then show ?thesis by (rule rejected)
next
  case (Some a)
  obtain mk shp where a: "a = (mk, shp)" by (cases a)
  from Some a switch_SomeD obtain g c where "mk = new_mesh g c" by blast
  with Some a have sw: "createObject_switch type (case size_arg of None \<Rightarrow> 2 | Some v \<Rightarrow> v)
             (case colors type of None \<Rightarrow> 65416 | Some v \<Rightarrow> if v = 0 then 65416 else v)
           = Some (new_mesh g c, shp)" by simp
  show ?thesis
  proof (cases "cannonShape shp")
    case (Inl e)
    from createObject_thrown[OF sw Inl, of position rnd s] thrown show ?thesis by blast
  next
    case (Inr cs)
    from createObject_switched[OF sw Inr, of position rnd s] made show ?thesis by blast
  qed
qed

lemma createObject_built:
  assumes "createObject_switch type (case size_arg of None \<Rightarrow> 2 | Some v \<Rightarrow> v)
             (case colors type of None \<Rightarrow> 65416 | Some v \<Rightarrow> if v = 0 then 65416 else v)
           = Some (new_mesh g c, shp)"
    and "cannonShape shp = Inr cs"
  shows "\<exists>obj s'. createObject type position size_arg rnd s = (Inr (Some obj), s') \<and>
           geometry (mesh_heap s' (obj_mesh obj)) = g \<and>
           shape (body_heap s' (obj_body obj)) = cs"
  using createObject_switched[OF assms, of position rnd s] by (auto simp: entry_def)

lemma createObject_sphere_desc:
  assumes "createObject_switch type (case size_arg of None \<Rightarrow> 2 | Some v \<Rightarrow> v)
             (case colors type of None \<Rightarrow> 65416 | Some v \<Rightarrow> if v = 0 then 65416 else v)
           = Some (new_mesh g c, SphereDesc r)"
  shows "(0 \<le> r \<longrightarrow>
            (\<exists>obj s'. createObject type position size_arg rnd s = (Inr (Some obj), s') \<and>
               geometry (mesh_heap s' (obj_mesh obj)) = g \<and>
               shape (body_heap s' (obj_body obj)) = Sphere r)) \<and>
         (\<forall>obj s'. createObject type position size_arg rnd s = (Inr (Some obj), s') \<longrightarrow>
            geometry (mesh_heap s' (obj_mesh obj)) = g \<and>
            shape (body_heap s' (obj_body obj)) = Sphere r) \<and>
         (r < 0 \<longrightarrow>
            (\<exists>s'. createObject type position size_arg rnd s = (Inl SphereRadiusNegative, s') \<and>
               objects s' = objects s \<and> world_bodies s' = world_bodies s \<and>
               scene_children s' = scene_children s))"
proof (cases "r < 0")
  case True
  then have "cannonShape (SphereDesc r) = Inl SphereRadiusNegative" by simp
  from createObject_thrown[OF assms this, of position rnd s] True show ?thesis by auto
next
  case False
  then have "cannonShape (SphereDesc r) = Inr (Sphere r)" by simp
  from createObject_built[OF assms this, of position rnd s] False show ?thesis by auto
qed

subsection \<open>Fields that each operation leaves alone\<close>

lemma removeObject_fields:
  "objects (removeObject obj s) = remove1 obj (objects s)"
  "objectId (removeObject obj s) = objectId s"
  "next_ref (removeObject obj s) = next_ref s"
  "scene_children (removeObject obj s) = remove1 (obj_mesh obj) (scene_children s)"
  "world_bodies (removeObject obj s) = remove1 (obj_body obj) (world_bodies s)"
  "defaultMass (removeObject obj s) = defaultMass s"
  "body_heap (removeObject obj s) = body_heap s"
  "isPaused (removeObject obj s) = isPaused s"
  by (simp_all add: removeObject_def Let_def scene_remove_def dispose_def removeBody_def
      world_removeBody_def)

lemma fold_removeObject_objectId: "objectId (fold removeObject xs s) = objectId s"
  by (induction xs arbitrary: s) (simp_all add: removeObject_fields)


lemma sync_one_fields:
  "objects (sync_one obj s) = objects s"
  "objectId (sync_one obj s) = objectId s"
  "next_ref (sync_one obj s) = next_ref s"
  "scene_children (sync_one obj s) = scene_children s"
  "world_bodies (sync_one obj s) = world_bodies s"
  "defaultMass (sync_one obj s) = defaultMass s"
  "body_heap (sync_one obj s) = body_heap s"
  "isPaused (sync_one obj s) = isPaused s"
  "render_calls (sync_one obj s) = render_calls s"
  by (simp_all add: sync_one_def)

lemma fold_sync_one_fields:
  "objects (fold sync_one xs s) = objects s"
  "objectId (fold sync_one xs s) = objectId s"
  "next_ref (fold sync_one xs s) = next_ref s"
  "scene_children (fold sync_one xs s) = scene_children s"
  "world_bodies (fold sync_one xs s) = world_bodies s"
  "defaultMass (fold sync_one xs s) = defaultMass s"
  "body_heap (fold sync_one xs s) = body_heap s"
  "isPaused (fold sync_one xs s) = isPaused s"
  "render_calls (fold sync_one xs s) = render_calls s"
  by (induction xs arbitrary: s) (simp_all add: sync_one_fields)

lemma PhysicsEngine_update_fields:
  "objects (PhysicsEngine_update w d s) = objects s"
  "objectId (PhysicsEngine_update w d s) = objectId s"
  "next_ref (PhysicsEngine_update w d s) = next_ref s"
  "scene_children (PhysicsEngine_update w d s) = scene_children s"
  "world_bodies (PhysicsEngine_update w d s) = world_bodies s"
  "defaultMass (PhysicsEngine_update w d s) = defaultMass s"
  "mass (body_heap (PhysicsEngine_update w d s) r) = mass (body_heap s r)"
  "mesh_heap (PhysicsEngine_update w d s) = mesh_heap s"
  "isPaused (PhysicsEngine_update w d s) = isPaused s"
  "render_calls (PhysicsEngine_update w d s) = render_calls s"
  by (simp_all add: PhysicsEngine_update_def world_step_def Let_def)

lemma render_fields:
  "objects (PhysicsRenderer_render t s) = objects s"
  "objectId (PhysicsRenderer_render t s) = objectId s"
  "next_ref (PhysicsRenderer_render t s) = next_ref s"
  "scene_children (PhysicsRenderer_render t s) = scene_children s"
  "world_bodies (PhysicsRenderer_render t s) = world_bodies s"
  "defaultMass (PhysicsRenderer_render t s) = defaultMass s"
  "body_heap (PhysicsRenderer_render t s) = body_heap s"
  "mesh_heap (PhysicsRenderer_render t s) = mesh_heap s"
  "isPaused (PhysicsRenderer_render t s) = isPaused s"
  "render_calls (PhysicsRenderer_render t s) = Suc (render_calls s)"
  by (simp_all add: PhysicsRenderer_render_def updateFPS_def Let_def)

lemma updateStats_fields:
  "objects (updateStats s) = objects s"
  "objectId (updateStats s) = objectId s"
  "next_ref (updateStats s) = next_ref s"
  "scene_children (updateStats s) = scene_children s"
  "world_bodies (updateStats s) = world_bodies s"
  "defaultMass (updateStats s) = defaultMass s"
  "body_heap (updateStats s) = body_heap s"
  "mesh_heap (updateStats s) = mesh_heap s"
  "isPaused (updateStats s) = isPaused s"
  "render_calls (updateStats s) = render_calls s"
  by (simp_all add: updateStats_def)


subsection \<open>List lemmas about removal\<close>

lemma distinct_map_remove1: "distinct (map f xs) \<Longrightarrow> distinct (map f (remove1 x xs))"
proof (induction xs)
  case Nil
  then show ?case by simp
next
  case (Cons a xs)
  have "set (remove1 x xs) \<subseteq> set xs" by (rule set_remove1_subset)
  with Cons show ?case by auto
qed

lemma remove1_twice: "distinct xs \<Longrightarrow> remove1 x (remove1 x xs) = remove1 x xs"
  by (simp add: remove1_idem)


lemma fold_remove1_filter_aux:
  "\<forall>y \<in> set ys. \<not> P y \<Longrightarrow>
   fold remove1 (filter P xs) (ys @ xs) = ys @ filter (\<lambda>x. \<not> P x) xs"
proof (induction xs arbitrary: ys)
  case Nil
  then show ?case by simp
next
  case (Cons x xs)
  show ?case
  proof (cases "P x")
    case True
    with Cons.prems have "x \<notin> set ys" by blast
    then have "remove1 x (ys @ x # xs) = ys @ xs" by (simp add: remove1_append)
    with True Cons.IH[OF Cons.prems] show ?thesis by simp
  next
    case False
    with Cons.prems have "\<forall>y \<in> set (ys @ [x]). \<not> P y" by simp
    from Cons.IH[OF this] False show ?thesis by simp
  qed
qed

lemma fold_remove1_filter:
  "fold remove1 (filter P xs) xs = filter (\<lambda>x. \<not> P x) xs"
  using fold_remove1_filter_aux[of "[]" P xs] by simp



lemma fold_world_removeBody:
  "fold world_removeBody bs s = s\<lparr>world_bodies := fold remove1 bs (world_bodies s)\<rparr>"
  by (induction bs arbitrary: s) (simp_all add: world_removeBody_def)

lemma clearAllBodies_eq:
  "clearAllBodies s = s\<lparr>world_bodies := filter (\<lambda>b. \<not> dynamic s b) (world_bodies s)\<rparr>"
  by (simp add: clearAllBodies_def Let_def fold_world_removeBody fold_remove1_filter)

subsection \<open>The invariant holds in every reachable state\<close>

lemma inv_cong:
  assumes "objects s' = objects s" "objectId s' = objectId s" "next_ref s' = next_ref s"
    "scene_children s' = scene_children s" "world_bodies s' = world_bodies s"
    "defaultMass s' = defaultMass s" "\<And>r. mass (body_heap s' r) = mass (body_heap s r)"
  shows "registry_inv s' = registry_inv s"
  using assms by (simp add: registry_inv_def ids_ok_def refs_ok_def mass_ok_def dynamic_def)

lemma inv_init: "registry_inv (init t0 t1)"
  by (simp add: registry_inv_def ids_ok_def refs_ok_def mass_ok_def init_def)

lemma inv_removeObject: "registry_inv s \<Longrightarrow> registry_inv (removeObject obj s)"
  unfolding registry_inv_def ids_ok_def refs_ok_def mass_ok_def dynamic_def
  by (auto simp: removeObject_fields distinct_map_remove1 dest: notin_set_remove1)

lemma inv_fold_removeObject: "registry_inv s \<Longrightarrow> registry_inv (fold removeObject xs s)"
  by (induction xs arbitrary: s) (simp_all add: inv_removeObject)

lemma inv_clearAllBodies: "registry_inv s \<Longrightarrow> registry_inv (clearAllBodies s)"
  unfolding registry_inv_def ids_ok_def refs_ok_def mass_ok_def dynamic_def clearAllBodies_eq
  by simp

lemma inv_clearAll: "registry_inv s \<Longrightarrow> registry_inv (clearAll s)"
  by (simp add: clearAll_def inv_clearAllBodies inv_fold_removeObject)

lemma inv_update: "registry_inv (ObjectManager_update s) = registry_inv s"
  by (rule inv_cong) (simp_all add: ObjectManager_update_def fold_sync_one_fields)

lemma inv_PhysicsEngine_update: "registry_inv (PhysicsEngine_update w d s) = registry_inv s"
  by (rule inv_cong) (simp_all add: PhysicsEngine_update_fields)

lemma inv_animate: "registry_inv (animate w t t' s) = registry_inv s"
  by (rule inv_cong)
     (simp_all add: animate_def Let_def updateStats_fields render_fields
        ObjectManager_update_def fold_sync_one_fields PhysicsEngine_update_fields)

lemma inv_createObject:
  assumes "registry_inv s"
  shows "registry_inv (snd (createObject type position size_arg rnd s))"
proof (cases rule: createObject_cases[of type position size_arg rnd s])
  case rejected
  with assms show ?thesis by simp
next
  case (made s')
  note f = made(2-9)
  have "ids_ok s'" using assms
    by (auto simp: registry_inv_def ids_ok_def f entry_def)
  moreover have "refs_ok s'" using assms
    by (auto simp: registry_inv_def refs_ok_def f entry_def)
  moreover have "mass_ok s'" using assms
    by (auto simp: registry_inv_def refs_ok_def mass_ok_def dynamic_def f entry_def)
  ultimately show ?thesis by (simp add: made(1) registry_inv_def)
next
  case (thrown e s')
  note f = thrown(2-8)
  have "ids_ok s'" using assms
    by (simp add: registry_inv_def ids_ok_def f)
  moreover have "refs_ok s'" using assms
    by (auto simp: registry_inv_def refs_ok_def f)
  moreover have "mass_ok s'" using assms
    by (simp add: registry_inv_def mass_ok_def dynamic_def f)
  ultimately show ?thesis by (simp add: thrown(1) registry_inv_def)
qed

lemma inv_apply_op: "registry_inv s \<Longrightarrow> registry_inv (apply_op a s)"
  by (cases a)
     (simp_all add: inv_createObject inv_removeObject inv_clearAll inv_update
        inv_PhysicsEngine_update inv_animate,
      simp_all add: registry_inv_def ids_ok_def refs_ok_def mass_ok_def dynamic_def
        setPaused_def setTimeScale_def)

lemma inv_run: "registry_inv s \<Longrightarrow> registry_inv (run ops s)"
  unfolding run_def by (induction ops arbitrary: s) (simp_all add: inv_apply_op)

lemma reachable_inv: "reachable s \<Longrightarrow> registry_inv s"
  unfolding reachable_def using inv_run[OF inv_init] by blast

lemma reachable_run: "reachable (run ops (init t0 t1))"
  unfolding reachable_def by blast

subsection \<open>Ids issued along a run\<close>

lemma objectId_apply_op: "objectId s \<le> objectId (apply_op a s)"
proof (cases a)
  case (CreateObject type position size_arg rnd)
  show ?thesis
    by (cases rule: createObject_cases[of type position size_arg rnd s])
       (simp_all add: CreateObject)
next
  case ClearAll
  then show ?thesis by (simp add: clearAll_def clearAllBodies_eq fold_removeObject_objectId)
next
  case (Animate w t t')
  then show ?thesis
    by (simp add: animate_def Let_def updateStats_fields render_fields
        ObjectManager_update_def fold_sync_one_fields PhysicsEngine_update_fields)
qed (simp_all add: removeObject_fields ObjectManager_update_def fold_sync_one_fields
      PhysicsEngine_update_fields setPaused_def setTimeScale_def)

lemma objectId_run: "objectId s \<le> objectId (run ops s)"
proof (induction ops arbitrary: s)
  case Nil
  then show ?case by (simp add: run_def)
next
  case (Cons a ops)
  have "objectId s \<le> objectId (apply_op a s)" by (rule objectId_apply_op)
  also have "\<dots> \<le> objectId (run ops (apply_op a s))" by (rule Cons.IH)
  finally show ?case by (simp add: run_def)
qed

lemma issued_by_bounds:
  assumes "i \<in> set (issued_by a s)"
  shows "objectId s \<le> i \<and> i < objectId (apply_op a s)"
proof (cases a)
  case (CreateObject type position size_arg rnd)
  with assms show ?thesis
    by (cases rule: createObject_cases[of type position size_arg rnd s])
       (simp_all add: entry_def)
qed (use assms in simp_all)

lemma issued_bounds:
  "i \<in> set (issued ops s) \<Longrightarrow> objectId s \<le> i \<and> i < objectId (run ops s)"
proof (induction ops arbitrary: s)
  case Nil
  then show ?case by simp
next
  case (Cons a ops)
  from Cons.prems consider "i \<in> set (issued_by a s)" | "i \<in> set (issued ops (apply_op a s))"
    by auto
  then show ?case
  proof cases
    case 1
    from issued_by_bounds[OF 1] objectId_run[of "apply_op a s" ops]
    show ?thesis by (simp add: run_def)
  next
    case 2
    from Cons.IH[OF 2] objectId_apply_op[of s a]
    show ?thesis by (simp add: run_def)
  qed
qed

lemma issued_by_sorted: "sorted_wrt (<) (issued_by a s)"
  by (cases a) (simp_all split: option.splits sum.splits)

lemma issued_sorted: "sorted_wrt (<) (issued ops s)"
proof (induction ops arbitrary: s)
  case Nil
  then show ?case by simp
next
  case (Cons a ops)
  have "i < j" if "i \<in> set (issued_by a s)" "j \<in> set (issued ops (apply_op a s))" for i j
    using issued_by_bounds[OF that(1)] issued_bounds[OF that(2)] by simp
  with Cons.IH[of "apply_op a s"] issued_by_sorted[of a s]
  show ?case by (simp add: sorted_wrt_append)
qed

subsection \<open>The copy pass\<close>

lemma fold_sync_one_untouched:
  "r \<notin> obj_mesh ` set xs \<Longrightarrow> mesh_heap (fold sync_one xs s) r = mesh_heap s r"
  by (induction xs arbitrary: s) (auto simp: sync_one_def)

lemma sync_one_at:
  "mesh_position (mesh_heap (sync_one a s) (obj_mesh a)) = body_position (body_heap s (obj_body a))"
  "mesh_quaternion (mesh_heap (sync_one a s) (obj_mesh a)) = body_quaternion (body_heap s (obj_body a))"
  by (simp_all add: sync_one_def)

lemma fold_sync_one_copies:
  assumes "distinct (map obj_mesh xs)" "obj \<in> set xs"
  shows "mesh_position (mesh_heap (fold sync_one xs s) (obj_mesh obj)) =
           body_position (body_heap s (obj_body obj)) \<and>
         mesh_quaternion (mesh_heap (fold sync_one xs s) (obj_mesh obj)) =
           body_quaternion (body_heap s (obj_body obj))"
  using assms
proof (induction xs arbitrary: s)
  case Nil
  then show ?case by simp
next
  case (Cons a xs)
  show ?case
  proof (cases "obj = a")
    case True
    from Cons.prems(1) have "obj_mesh a \<notin> obj_mesh ` set xs" by simp
    then have "mesh_heap (fold sync_one xs (sync_one a s)) (obj_mesh a) =
               mesh_heap (sync_one a s) (obj_mesh a)"
      by (rule fold_sync_one_untouched)
    with True show ?thesis by (simp add: sync_one_at)
  next
    case False
    with Cons.prems have "obj \<in> set xs" "distinct (map obj_mesh xs)" by simp_all
    from Cons.IH[OF this(2) this(1), of "sync_one a s"] show ?thesis
      by (simp add: sync_one_fields)
  qed
qed

lemma fold_sync_one_rest:
  "geometry (mesh_heap (fold sync_one xs s) r) = geometry (mesh_heap s r)"
  "material (mesh_heap (fold sync_one xs s) r) = material (mesh_heap s r)"
  "geometry_disposed (mesh_heap (fold sync_one xs s) r) = geometry_disposed (mesh_heap s r)"
  "material_disposed (mesh_heap (fold sync_one xs s) r) = material_disposed (mesh_heap s r)"
  by (induction xs arbitrary: s) (simp_all add: sync_one_def)

lemma removeObject_twice:
  assumes "distinct (scene_children s)" "distinct (world_bodies s)" "distinct (objects s)"
  shows "removeObject obj (removeObject obj s) = removeObject obj s"
  using assms
  by (simp add: removeObject_def Let_def scene_remove_def dispose_def removeBody_def
      world_removeBody_def remove1_twice)

subsection \<open>Entries that have left the registry\<close>

lemma settled_cong:
  assumes "objects s' = objects s" "next_ref s' = next_ref s"
    "scene_children s' = scene_children s" "world_bodies s' = world_bodies s"
    "\<And>r. geometry_disposed (mesh_heap s' r) = geometry_disposed (mesh_heap s r)"
    "\<And>r. material_disposed (mesh_heap s' r) = material_disposed (mesh_heap s r)"
  shows "settled s' obj = settled s obj"
  using assms by (simp add: settled_def gone_def)

lemma removeObject_mesh_flags:
  "geometry_disposed (mesh_heap (removeObject x s) r) =
     (r = obj_mesh x \<or> geometry_disposed (mesh_heap s r))"
  "material_disposed (mesh_heap (removeObject x s) r) =
     (r = obj_mesh x \<or> material_disposed (mesh_heap s r))"
  by (simp_all add: removeObject_def Let_def scene_remove_def dispose_def removeBody_def
      world_removeBody_def)

lemma settled_removeObject:
  assumes "registry_inv s" "settled s obj"
  shows "settled (removeObject x s) obj"
proof -
  from assms(1) have d: "distinct (scene_children s)" "distinct (world_bodies s)"
    by (simp_all add: registry_inv_def refs_ok_def)
  show ?thesis
  proof (cases "obj \<in> set (objects s) \<and> x \<noteq> obj")
    case True
    then have "obj \<in> set (remove1 x (objects s))" by (metis in_set_remove1)
    with assms(2) show ?thesis by (simp add: settled_def removeObject_fields)
  next
    case False
    then consider "x = obj" | "gone s obj" using assms(2) by (auto simp: settled_def)
    then have "gone (removeObject x s) obj"
    proof cases
      case 1
      with d show ?thesis by (simp add: gone_def removeObject_fields removeObject_mesh_flags)
    next
      case 2
      then show ?thesis
        by (auto simp: gone_def removeObject_fields removeObject_mesh_flags dest: notin_set_remove1)
    qed
    with assms(2) show ?thesis by (simp add: settled_def removeObject_fields)
  qed
qed

lemma settled_fold_removeObject:
  "registry_inv s \<Longrightarrow> settled s obj \<Longrightarrow> settled (fold removeObject xs s) obj"
  by (induction xs arbitrary: s) (simp_all add: settled_removeObject inv_removeObject)

lemma settled_clearAllBodies: "settled s obj \<Longrightarrow> settled (clearAllBodies s) obj"
  by (auto simp: settled_def gone_def clearAllBodies_eq)

lemma settled_update: "settled (ObjectManager_update s) obj = settled s obj"
  by (rule settled_cong)
     (simp_all add: ObjectManager_update_def fold_sync_one_fields fold_sync_one_rest)

lemma settled_PhysicsEngine_update: "settled (PhysicsEngine_update w d s) obj = settled s obj"
  by (rule settled_cong) (simp_all add: PhysicsEngine_update_fields)

lemma settled_animate: "settled (animate w t t' s) obj = settled s obj"
  by (rule settled_cong)
     (simp_all add: animate_def Let_def updateStats_fields render_fields
        ObjectManager_update_def fold_sync_one_fields fold_sync_one_rest
        PhysicsEngine_update_fields)

lemma settled_createObject:
  assumes "settled s obj"
  shows "settled (snd (createObject type position size_arg rnd s)) obj"
proof (cases rule: createObject_cases[of type position size_arg rnd s])
  case rejected
  with assms show ?thesis by simp
next
  case (made s')
  from assms have "settled s' obj"
    by (auto simp: settled_def gone_def made(2-6) made(10))
  then show ?thesis by (simp add: made(1))
next
  case (thrown e s')
  from assms have "settled s' obj"
    by (auto simp: settled_def gone_def thrown(2-6) thrown(9))
  then show ?thesis by (simp add: thrown(1))
qed

lemma settled_apply_op:
  assumes "registry_inv s" "settled s obj"
  shows "settled (apply_op a s) obj"
proof (cases a)
  case (CreateObject type position size_arg rnd)
  with assms(2) show ?thesis by (simp add: settled_createObject)
next
  case (RemoveObject x)
  with assms show ?thesis by (simp add: settled_removeObject)
next
  case ClearAll
  with assms show ?thesis
    by (simp add: clearAll_def settled_clearAllBodies settled_fold_removeObject)
next
  case (SetPaused b)
  with assms(2) show ?thesis by (simp add: setPaused_def settled_def gone_def)
next
  case (SetTimeScale b)
  with assms(2) show ?thesis by (simp add: setTimeScale_def settled_def gone_def)
qed (use assms(2) in \<open>simp_all add: settled_update settled_PhysicsEngine_update settled_animate\<close>)

lemma settled_run:
  "registry_inv s \<Longrightarrow> settled s obj \<Longrightarrow> settled (run ops s) obj"
  unfolding run_def
  by (induction ops arbitrary: s) (simp_all add: settled_apply_op inv_apply_op)

lemma settled_created_by:
  assumes "obj \<in> set (created_by a s)"
  shows "settled (apply_op a s) obj"
proof (cases a)
  case (CreateObject type position size_arg rnd)
  with assms show ?thesis
    by (cases rule: createObject_cases[of type position size_arg rnd s])
       (auto simp: settled_def entry_def)
qed (use assms in simp_all)

lemma settled_created:
  "registry_inv s \<Longrightarrow> obj \<in> set (created ops s) \<Longrightarrow> settled (run ops s) obj"
proof (induction ops arbitrary: s)
  case Nil
  then show ?case by simp
next
  case (Cons a ops)
  have i: "registry_inv (apply_op a s)" using Cons.prems(1) by (rule inv_apply_op)
  from Cons.prems(2) consider "obj \<in> set (created_by a s)" | "obj \<in> set (created ops (apply_op a s))"
    by auto
  then show ?case
  proof cases
    case 1
    then have "settled (apply_op a s) obj" by (rule settled_created_by)
    with i have "settled (run ops (apply_op a s)) obj" by (rule settled_run)
    then show ?thesis by (simp add: run_def)
  next
    case 2
    from Cons.IH[OF i 2] show ?thesis by (simp add: run_def)
  qed
qed

lemma mesh_disposed_again:
  assumes "geometry_disposed m" "material_disposed m"
  shows "m\<lparr>geometry_disposed := True, material_disposed := True\<rparr> = m"
  using assms by (cases m) simp

lemma removeObject_gone:
  assumes "obj \<notin> set (objects s)" "gone s obj"
  shows "removeObject obj s = s"
proof -
  from assms(2) have m: "(mesh_heap s)(obj_mesh obj :=
      (mesh_heap s (obj_mesh obj))\<lparr>geometry_disposed := True, material_disposed := True\<rparr>)
      = mesh_heap s"
    by (simp add: gone_def mesh_disposed_again)
  from assms have l: "remove1 obj (objects s) = objects s"
    "remove1 (obj_mesh obj) (scene_children s) = scene_children s"
    "remove1 (obj_body obj) (world_bodies s) = world_bodies s"
    by (simp_all add: gone_def remove1_idem)
  show ?thesis
    unfolding removeObject_def Let_def scene_remove_def dispose_def removeBody_def
      world_removeBody_def
    by (simp add: l m)
qed

subsection \<open>Evaluation of the concrete runs\<close>

lemmas eval_defs =
  run_def init_def createObject_def createObject_switch_def colors_def
  createBox_def createSphere_def createCylinder_def createCone_def createTorus_def
  new_mesh_def createBody_def new_body_def world_addBody_def scene_add_def Let_def
  removeObject_def scene_remove_def dispose_def removeBody_def world_removeBody_def
  PhysicsEngine_update_def world_step_def setPaused_def getCount_def supported_def

lemma run_box: 
  "objects (run [box_op] (init 0 0)) = [box_entry]"
  "objectId (run [box_op] (init 0 0)) = 1"
  "issued [box_op] (init 0 0) = [0]"
  by (simp_all add: eval_defs box_op_def box_entry_def)

lemma run_box_fall:
  "objects (run [box_op, PhysicsUpdate fall_to_8 (1 / 60)] (init 0 0)) = [box_entry]"
  "body_position (body_heap (run [box_op, PhysicsUpdate fall_to_8 (1 / 60)] (init 0 0)) 8) = Vec3 0 8 0"
  "body_position (body_heap (run [box_op] (init 0 0)) 8) = Vec3 0 10 0"
  by (simp_all add: eval_defs box_op_def box_entry_def fall_to_8_def)


lemma run_box_paused:
  "isPaused (run [box_op, SetPaused True] (init 0 0))"
  "objects (run [box_op, SetPaused True] (init 0 0)) = [box_entry]"
  "body_position (body_heap (run [box_op, SetPaused True] (init 0 0)) 8) = Vec3 0 10 0"
  by (simp_all add: eval_defs box_op_def box_entry_def)

lemma run_box_removed:
  "created [box_op, RemoveObject box_entry, torus_op] (init 0 0) =
     [box_entry, \<lparr>obj_ref = 12, obj_id = 1, obj_type = ''torus'', obj_mesh = 10, obj_body = 11\<rparr>]"
  "objects (run [box_op, RemoveObject box_entry, torus_op] (init 0 0)) =
     [\<lparr>obj_ref = 12, obj_id = 1, obj_type = ''torus'', obj_mesh = 10, obj_body = 11\<rparr>]"
  by (simp_all add: eval_defs box_op_def torus_op_def box_entry_def)

lemma torus_at_init:
  "createObject ''torus'' (Vec3 0 10 0) (Some 2) (0, 0, 0) (init 0 0) =
     (Inr (Some \<lparr>obj_ref = 9, obj_id = 0, obj_type = ''torus'', obj_mesh = 7, obj_body = 8\<rparr>),
      snd (createObject ''torus'' (Vec3 0 10 0) (Some 2) (0, 0, 0) (init 0 0)))"
  by (simp add: eval_defs)

lemma run_box_bad_sphere:
  "objects (run [box_op, bad_sphere_op] (init 0 0)) = [box_entry]"
  "issued [box_op, bad_sphere_op] (init 0 0) = [0]"
  "next_ref (run [box_op, bad_sphere_op] (init 0 0)) = 11"
  by (simp_all add: eval_defs box_op_def bad_sphere_op_def box_entry_def)

section \<open>The claims\<close>

subsection \<open>C1: createObject adds one entry with a fresh, larger id\<close>

text \<open>
  Claim C1. In every state \<open>s\<close> that a run \<open>ops\<close> of the application reaches, a call of
  \<^verbatim>\<open>createObject\<close> with one of the five supported kinds and a size that is not
  negative (the size of the specification is a positive number; the default 2 is
  one) returns an entry, raises
  \<^verbatim>\<open>getCount()\<close> by exactly 1 and tracks the entry; the id of the entry is strictly
  greater than every id issued during the run; the ids issued during the run are
  strictly increasing, so none was used twice; and no two entries of the registry
  have the same id. The runs include the calls of \<^verbatim>\<open>createObject\<close> that throw: they
  issue no id.
\<close>

theorem createObject_count_and_fresh_id:
  assumes "supported type" and "0 \<le> (case size_arg of None \<Rightarrow> 2 | Some v \<Rightarrow> v)"
    and "s = run ops (init t0 t1)"
  shows "\<exists>obj s'. createObject type position size_arg rnd s = (Inr (Some obj), s') \<and>
           getCount s' = getCount s + 1 \<and>
           obj \<in> set (objects s') \<and>
           (\<forall>i \<in> set (issued ops (init t0 t1)). i < obj_id obj) \<and>
           sorted_wrt (<) (issued ops (init t0 t1)) \<and>
           distinct (map obj_id (objects s'))"
proof -
  from createObject_supported[OF assms(1,2), of position rnd s]
  obtain s' where c: "createObject type position size_arg rnd s = (Inr (Some (entry type s)), s')"
    and o: "objects s' = objects s @ [entry type s]"
    by blast
  have "registry_inv s" unfolding assms(3) by (rule inv_run[OF inv_init])
  then have "registry_inv (snd (createObject type position size_arg rnd s))"
    by (rule inv_createObject)
  then have d: "distinct (map obj_id (objects s'))"
    by (simp add: c registry_inv_def ids_ok_def)
  have b: "\<forall>i \<in> set (issued ops (init t0 t1)). i < obj_id (entry type s)"
    using issued_bounds[of _ ops "init t0 t1"] by (simp add: entry_def assms(3))
  from c o d b issued_sorted show ?thesis by (simp add: getCount_def)
qed

theorem createObject_count_and_fresh_id_witness:
  "supported ''sphere'' \<and> (0::real) \<le> (case None of None \<Rightarrow> 2 | Some v \<Rightarrow> v) \<and>
   issued [box_op, bad_sphere_op] (init 0 0) = [0] \<and>
   getCount (run [box_op, bad_sphere_op] (init 0 0)) = 1 \<and>
   (\<exists>obj s'. createObject ''sphere'' (Vec3 1 12 1) None (0, 0, 0)
                (run [box_op, bad_sphere_op] (init 0 0)) = (Inr (Some obj), s') \<and>
           getCount s' = 2 \<and> obj \<in> set (objects s') \<and> 0 < obj_id obj \<and>
           distinct (map obj_id (objects s')))"
proof -
  let ?ops = "[box_op, bad_sphere_op]"
  have h: "supported ''sphere''" by (simp add: supported_def)
  have z: "(0::real) \<le> (case None of None \<Rightarrow> 2 | Some v \<Rightarrow> v)" by simp
  from createObject_count_and_fresh_id[OF h z refl, of "Vec3 1 12 1" "(0, 0, 0)" ?ops 0 0]
  obtain obj s' where
    c: "createObject ''sphere'' (Vec3 1 12 1) None (0, 0, 0) (run ?ops (init 0 0)) = (Inr (Some obj), s')"
    and n: "getCount s' = getCount (run ?ops (init 0 0)) + 1"
    and m: "obj \<in> set (objects s')"
    and i: "\<forall>i \<in> set (issued ?ops (init 0 0)). i < obj_id obj"
    and d: "distinct (map obj_id (objects s'))"
    by blast
  have g: "getCount (run ?ops (init 0 0)) = 1" by (simp add: getCount_def run_box_bad_sphere)
  from i have "0 < obj_id obj" unfolding run_box_bad_sphere by simp
  with h z c n m d g run_box_bad_sphere(2) show ?thesis by auto
qed

subsection \<open>C2: update copies the transform of each body to its mesh\<close>

text \<open>
  Claim C2. After \<^verbatim>\<open>ObjectManager.update()\<close> in a reachable state, the position and the
  quaternion of the mesh of every tracked entry are equal to the position and the
  quaternion that its body has at the call. The call leaves the registry, the scene
  graph, the world, the body store and the allocator as they are, and in the mesh
  store it changes nothing but positions and quaternions: no mesh, body or entry is
  made, removed or disposed.
\<close>

theorem update_copies_transforms:
  assumes "reachable s"
  shows "(\<forall>obj \<in> set (objects s).
            mesh_position (mesh_heap (ObjectManager_update s) (obj_mesh obj)) =
              body_position (body_heap s (obj_body obj)) \<and>
            mesh_quaternion (mesh_heap (ObjectManager_update s) (obj_mesh obj)) =
              body_quaternion (body_heap s (obj_body obj))) \<and>
         objects (ObjectManager_update s) = objects s \<and>
         scene_children (ObjectManager_update s) = scene_children s \<and>
         world_bodies (ObjectManager_update s) = world_bodies s \<and>
         body_heap (ObjectManager_update s) = body_heap s \<and>
         next_ref (ObjectManager_update s) = next_ref s \<and>
         (\<forall>r. geometry (mesh_heap (ObjectManager_update s) r) = geometry (mesh_heap s r) \<and>
              material (mesh_heap (ObjectManager_update s) r) = material (mesh_heap s r) \<and>
              geometry_disposed (mesh_heap (ObjectManager_update s) r) =
                geometry_disposed (mesh_heap s r) \<and>
              material_disposed (mesh_heap (ObjectManager_update s) r) =
                material_disposed (mesh_heap s r))"
proof -
  from reachable_inv[OF assms] have "distinct (map obj_mesh (objects s))"
    by (simp add: registry_inv_def refs_ok_def)
  then show ?thesis
    by (simp add: ObjectManager_update_def fold_sync_one_fields fold_sync_one_rest
        fold_sync_one_copies)
qed

theorem update_copies_transforms_witness:
  "reachable (run [box_op, PhysicsUpdate fall_to_8 (1 / 60)] (init 0 0)) \<and>
   getCount (run [box_op, PhysicsUpdate fall_to_8 (1 / 60)] (init 0 0)) = 1 \<and>
   mesh_position (mesh_heap
     (ObjectManager_update (run [box_op, PhysicsUpdate fall_to_8 (1 / 60)] (init 0 0))) 7) = Vec3 0 8 0"
proof -
  let ?s = "run [box_op, PhysicsUpdate fall_to_8 (1 / 60)] (init 0 0)"
  have r: "reachable ?s" by (rule reachable_run)
  from update_copies_transforms[OF r]
  have "\<forall>obj \<in> set (objects ?s).
            mesh_position (mesh_heap (ObjectManager_update ?s) (obj_mesh obj)) =
              body_position (body_heap ?s (obj_body obj))" by blast
  then have "mesh_position (mesh_heap (ObjectManager_update ?s) 7) = Vec3 0 8 0"
    unfolding run_box_fall by (simp add: box_entry_def run_box_fall)
  with r show ?thesis by (simp add: getCount_def run_box_fall)
qed

subsection \<open>C3: removeObject on tracked and on untracked entries\<close>

text \<open>
  Claim C3. \<^verbatim>\<open>removeObject(obj)\<close> lowers \<^verbatim>\<open>getCount()\<close> by exactly 1 when \<open>obj\<close> is
  tracked. When \<open>obj\<close> is not tracked the registry and \<^verbatim>\<open>getCount()\<close> stay as they are.
  In a reachable state \<open>obj\<close> is no longer tracked after the call, and a second call
  on the same entry changes nothing at all. More generally, for an entry that
  \<^verbatim>\<open>createObject\<close> has returned at some point of a run and that is no longer tracked
  at its end, the call returns the state unchanged. The function has no failing
  branch; it returns a state for every entry.
\<close>

theorem removeObject_count:
  "(obj \<in> set (objects s) \<longrightarrow> getCount (removeObject obj s) + 1 = getCount s) \<and>
   (obj \<notin> set (objects s) \<longrightarrow>
      objects (removeObject obj s) = objects s \<and> getCount (removeObject obj s) = getCount s) \<and>
   (reachable s \<longrightarrow>
      obj \<notin> set (objects (removeObject obj s)) \<and>
      removeObject obj (removeObject obj s) = removeObject obj s) \<and>
   (s = run ops (init t0 t1) \<and> obj \<in> set (created ops (init t0 t1)) \<and>
    obj \<notin> set (objects s) \<longrightarrow> removeObject obj s = s)"
proof (intro conjI impI)
  assume "obj \<in> set (objects s)"
  moreover from this have "0 < length (objects s)" by (rule length_pos_if_in_set)
  ultimately show "getCount (removeObject obj s) + 1 = getCount s"
    by (simp add: getCount_def removeObject_fields length_remove1)
next
  assume "obj \<notin> set (objects s)"
  then show "objects (removeObject obj s) = objects s"
    and "getCount (removeObject obj s) = getCount s"
    by (simp_all add: getCount_def removeObject_fields remove1_idem)
next
  assume "reachable s"
  from reachable_inv[OF this]
  have d: "distinct (scene_children s)" "distinct (world_bodies s)" "distinct (objects s)"
    by (simp_all add: registry_inv_def refs_ok_def ids_ok_def distinct_map)
  from d(3) show "obj \<notin> set (objects (removeObject obj s))"
    by (simp add: removeObject_fields)
  from d show "removeObject obj (removeObject obj s) = removeObject obj s"
    by (rule removeObject_twice)
next
  assume a: "s = run ops (init t0 t1) \<and> obj \<in> set (created ops (init t0 t1)) \<and>
    obj \<notin> set (objects s)"
  then have n: "obj \<notin> set (objects s)" and c: "obj \<in> set (created ops (init t0 t1))"
    and s: "s = run ops (init t0 t1)" by blast+
  from settled_created[OF inv_init c] have "settled s obj" unfolding s .
  with n have "gone s obj" unfolding settled_def by blast
  with n show "removeObject obj s = s" by (rule removeObject_gone)
qed

theorem removeObject_count_witness:
  "box_entry \<in> set (objects (run [box_op] (init 0 0))) \<and>
   getCount (run [box_op] (init 0 0)) = 1 \<and>
   getCount (removeObject box_entry (run [box_op] (init 0 0))) + 1 = 1 \<and>
   reachable (run [box_op] (init 0 0)) \<and>
   box_entry \<notin> set (objects (removeObject box_entry (run [box_op] (init 0 0)))) \<and>
   getCount (removeObject box_entry (removeObject box_entry (run [box_op] (init 0 0)))) =
     getCount (removeObject box_entry (run [box_op] (init 0 0))) \<and>
   removeObject box_entry (removeObject box_entry (run [box_op] (init 0 0))) =
     removeObject box_entry (run [box_op] (init 0 0)) \<and>
   box_entry \<in> set (created [box_op, RemoveObject box_entry, torus_op] (init 0 0)) \<and>
   box_entry \<notin> set (objects (run [box_op, RemoveObject box_entry, torus_op] (init 0 0))) \<and>
   removeObject box_entry (run [box_op, RemoveObject box_entry, torus_op] (init 0 0)) =
     run [box_op, RemoveObject box_entry, torus_op] (init 0 0)"
proof -
  let ?s = "run [box_op] (init 0 0)"
  let ?ops = "[box_op, RemoveObject box_entry, torus_op]"
  have m: "box_entry \<in> set (objects ?s)" by (simp add: run_box)
  have g: "getCount ?s = 1" by (simp add: getCount_def run_box)
  have r: "reachable ?s" by (rule reachable_run)
  from removeObject_count[of box_entry ?s] m r
  have 1: "getCount (removeObject box_entry ?s) + 1 = getCount ?s"
    and 2: "box_entry \<notin> set (objects (removeObject box_entry ?s))"
    and 3: "removeObject box_entry (removeObject box_entry ?s) = removeObject box_entry ?s"
    by blast+
  from removeObject_count[of box_entry "removeObject box_entry ?s"] 2
  have 4: "getCount (removeObject box_entry (removeObject box_entry ?s)) =
     getCount (removeObject box_entry ?s)" by blast
  have 5: "box_entry \<in> set (created ?ops (init 0 0))"
    and 6: "box_entry \<notin> set (objects (run ?ops (init 0 0)))"
    unfolding run_box_removed by (simp_all add: box_entry_def)
  from removeObject_count[of box_entry "run ?ops (init 0 0)" ?ops 0 0] 5 6
  have 7: "removeObject box_entry (run ?ops (init 0 0)) = run ?ops (init 0 0)" by blast
  from m g r 1 2 3 4 5 6 7 show ?thesis by simp
qed

subsection \<open>C4: clearAll empties the registry and the dynamic bodies\<close>



subsection \<open>C5: createObject rejects an unsupported kind\<close>

text \<open>
  Claim C5. For a kind outside the five supported ones \<^verbatim>\<open>createObject\<close> returns
  \<^verbatim>\<open>null\<close> and the state it leaves is the state it found: \<^verbatim>\<open>getCount()\<close>, the scene
  graph and the physics world are unchanged. The call does not throw: its result is
  \<open>Inr None\<close>, the value \<^verbatim>\<open>null\<close>, whatever the size.
\<close>

theorem unsupported_kind_rejected:
  assumes "\<not> supported type"
  shows "createObject type position size_arg rnd s = (Inr None, s) \<and>
         getCount (snd (createObject type position size_arg rnd s)) = getCount s \<and>
         scene_children (snd (createObject type position size_arg rnd s)) = scene_children s \<and>
         world_bodies (snd (createObject type position size_arg rnd s)) = world_bodies s"
  using assms by (simp add: createObject_unsupported)

theorem unsupported_kind_rejected_witness:
  "\<not> supported ''pyramid'' \<and>
   createObject ''pyramid'' (Vec3 0 10 0) (Some 2) (0, 0, 0) (init 0 0) = (Inr None, init 0 0)"
proof -
  have h: "\<not> supported ''pyramid''" by (simp add: supported_def)
  from unsupported_kind_rejected[OF h] h show ?thesis by blast
qed

subsection \<open>C6: sphere: radius of the mesh and of the body\<close>

text \<open>
  Claim C6. For a size \<open>sz\<close> that is not negative, \<^verbatim>\<open>createObject\<close> makes a sphere:
  the geometry of the mesh is a sphere of radius \<open>sz / 2\<close> and the shape of the body is
  a sphere of radius \<open>sz / 2\<close>. Whenever a call for a sphere returns an entry, its
  mesh and its body have these radii. For a negative size the constructor of the
  physics shape throws, and so does \<^verbatim>\<open>createObject\<close>: no sphere is made, and the
  registry, the world and the scene are as before.
\<close>

theorem sphere_radius_consistent:
  "(0 \<le> sz \<longrightarrow>
      (\<exists>obj s'. createObject ''sphere'' position (Some sz) rnd s = (Inr (Some obj), s') \<and>
         geometry (mesh_heap s' (obj_mesh obj)) = SphereGeometry (sz / 2) 32 32 \<and>
         shape (body_heap s' (obj_body obj)) = Sphere (sz / 2))) \<and>
   (\<forall>obj s'. createObject ''sphere'' position (Some sz) rnd s = (Inr (Some obj), s') \<longrightarrow>
      geometry (mesh_heap s' (obj_mesh obj)) = SphereGeometry (sz / 2) 32 32 \<and>
      shape (body_heap s' (obj_body obj)) = Sphere (sz / 2)) \<and>
   (sz < 0 \<longrightarrow>
      (\<exists>s'. createObject ''sphere'' position (Some sz) rnd s = (Inl SphereRadiusNegative, s') \<and>
         objects s' = objects s \<and> world_bodies s' = world_bodies s \<and>
         scene_children s' = scene_children s))"
proof -
  have "createObject_switch ''sphere'' (case Some sz of None \<Rightarrow> 2 | Some v \<Rightarrow> v)
          (case colors ''sphere'' of None \<Rightarrow> 65416 | Some v \<Rightarrow> if v = 0 then 65416 else v)
        = Some (new_mesh (SphereGeometry (sz / 2) 32 32) 54527, SphereDesc (sz / 2))"
    by (simp add: createObject_switch_def colors_def createSphere_def fun_eq_iff)
  from createObject_sphere_desc[OF this, of position rnd s] show ?thesis by simp
qed

theorem sphere_radius_consistent_witness:
  "(0::real) \<le> 3 \<and>
   (\<exists>obj s'. createObject ''sphere'' (Vec3 0 10 0) (Some 3) (0, 0, 0) (init 0 0) = (Inr (Some obj), s') \<and>
     geometry (mesh_heap s' (obj_mesh obj)) = SphereGeometry (3 / 2) 32 32 \<and>
     shape (body_heap s' (obj_body obj)) = Sphere (3 / 2)) \<and>
   (- 2 :: real) < 0 \<and>
   (\<exists>s'. createObject ''sphere'' (Vec3 0 10 0) (Some (- 2)) (0, 0, 0) (init 0 0) =
            (Inl SphereRadiusNegative, s') \<and>
         objects s' = objects (init 0 0) \<and> world_bodies s' = world_bodies (init 0 0) \<and>
         scene_children s' = scene_children (init 0 0))"
  using sphere_radius_consistent[of 3 "Vec3 0 10 0" "(0, 0, 0)" "init 0 0"]
    sphere_radius_consistent[of "- 2" "Vec3 0 10 0" "(0, 0, 0)" "init 0 0"]
  by simp

subsection \<open>C7: cylinder: dimensions of the mesh and of the body\<close>

text \<open>
  Claim C7, as amended. For a cylinder made by \<^verbatim>\<open>createObject\<close> with size \<open>sz\<close>, the
  geometry given to the scene has radius \<open>sz / 2\<close> at both ends, height \<open>sz\<close> and 32
  radial segments; the shape given to the physics engine has radius \<open>sz / 2\<close> at both
  ends, height \<open>sz\<close> and 8 segments. Radius and height agree; the number of segments
  does not. The claim as written gives the geometry of the scene 8 segments; the
  last theorem of this subsection shows a cylinder of size 2 whose geometry is not the one with
  8 segments.
\<close>

theorem cylinder_dimensions:
  "\<exists>obj s'. createObject ''cylinder'' position (Some sz) rnd s = (Inr (Some obj), s') \<and>
     geometry (mesh_heap s' (obj_mesh obj)) = CylinderGeometry (sz / 2) (sz / 2) sz 32 \<and>
     shape (body_heap s' (obj_body obj)) = Cylinder (sz / 2) (sz / 2) sz 8"
proof -
  have "createObject_switch ''cylinder'' (case Some sz of None \<Rightarrow> 2 | Some v \<Rightarrow> v)
          (case colors ''cylinder'' of None \<Rightarrow> 65416 | Some v \<Rightarrow> if v = 0 then 65416 else v)
        = Some (new_mesh (CylinderGeometry (sz / 2) (sz / 2) sz 32) 11684851,
                CylinderDesc (sz / 2) (sz / 2) sz 8)"
    by (simp add: createObject_switch_def colors_def createCylinder_def fun_eq_iff)
  moreover have "cannonShape (CylinderDesc (sz / 2) (sz / 2) sz 8) =
      Inr (Cylinder (sz / 2) (sz / 2) sz 8)"
    by simp
  ultimately show ?thesis by (rule createObject_built)
qed

theorem cylinder_dimensions_witness:
  "\<exists>obj s'. createObject ''cylinder'' (Vec3 0 10 0) (Some 2) (0, 0, 0) (init 0 0) = (Inr (Some obj), s') \<and>
     geometry (mesh_heap s' (obj_mesh obj)) = CylinderGeometry 1 1 2 32 \<and>
     shape (body_heap s' (obj_body obj)) = Cylinder 1 1 2 8"
  using cylinder_dimensions[of "Vec3 0 10 0" 2 "(0, 0, 0)" "init 0 0"] by simp

theorem cylinder_segments_counterexample:
  "fst (createObject ''cylinder'' (Vec3 0 10 0) (Some 2) (0, 0, 0) (init 0 0)) =
     Inr (Some \<lparr>obj_ref = 9, obj_id = 0, obj_type = ''cylinder'', obj_mesh = 7, obj_body = 8\<rparr>) \<and>
   geometry (mesh_heap (snd (createObject ''cylinder'' (Vec3 0 10 0) (Some 2) (0, 0, 0) (init 0 0))) 7)
     \<noteq> CylinderGeometry 1 1 2 8"
  by (simp add: createObject_def createObject_switch_def colors_def createCylinder_def
      new_mesh_def createBody_def new_body_def world_addBody_def scene_add_def init_def Let_def)

subsection \<open>C8: torus: the body is a sphere\<close>

text \<open>
  Claim C8. For a size \<open>sz\<close> that is not negative, \<^verbatim>\<open>createObject\<close> makes a torus whose
  body has the shape of a sphere of radius \<open>sz / 2\<close> (the mesh is a torus of radius
  \<open>sz / 2\<close> and tube \<open>sz / 4\<close>). Whenever a call for a torus returns an entry, its
  body is that sphere. For a negative size the constructor of the sphere throws, and
  so does \<^verbatim>\<open>createObject\<close>: no torus is made, and the registry, the world and the
  scene are as before.
\<close>

theorem torus_physics_sphere:
  "(0 \<le> sz \<longrightarrow>
      (\<exists>obj s'. createObject ''torus'' position (Some sz) rnd s = (Inr (Some obj), s') \<and>
         geometry (mesh_heap s' (obj_mesh obj)) = TorusGeometry (sz / 2) (sz / 4) 16 100 \<and>
         shape (body_heap s' (obj_body obj)) = Sphere (sz / 2))) \<and>
   (\<forall>obj s'. createObject ''torus'' position (Some sz) rnd s = (Inr (Some obj), s') \<longrightarrow>
      geometry (mesh_heap s' (obj_mesh obj)) = TorusGeometry (sz / 2) (sz / 4) 16 100 \<and>
      shape (body_heap s' (obj_body obj)) = Sphere (sz / 2)) \<and>
   (sz < 0 \<longrightarrow>
      (\<exists>s'. createObject ''torus'' position (Some sz) rnd s = (Inl SphereRadiusNegative, s') \<and>
         objects s' = objects s \<and> world_bodies s' = world_bodies s \<and>
         scene_children s' = scene_children s))"
proof -
  have "createObject_switch ''torus'' (case Some sz of None \<Rightarrow> 2 | Some v \<Rightarrow> v)
          (case colors ''torus'' of None \<Rightarrow> 65416 | Some v \<Rightarrow> if v = 0 then 65416 else v)
        = Some (new_mesh (TorusGeometry (sz / 2) (sz / 4) 16 100) 16767293, SphereDesc (sz / 2))"
    by (simp add: createObject_switch_def colors_def createTorus_def fun_eq_iff)
  from createObject_sphere_desc[OF this, of position rnd s] show ?thesis by simp
qed

theorem torus_physics_sphere_witness:
  "(0::real) \<le> 2 \<and>
   (\<exists>obj s'. createObject ''torus'' (Vec3 0 10 0) (Some 2) (0, 0, 0) (init 0 0) = (Inr (Some obj), s') \<and>
     geometry (mesh_heap s' (obj_mesh obj)) = TorusGeometry 1 (1 / 2) 16 100 \<and>
     shape (body_heap s' (obj_body obj)) = Sphere 1) \<and>
   (- 2 :: real) < 0 \<and>
   (\<exists>s'. createObject ''torus'' (Vec3 0 10 0) (Some (- 2)) (0, 0, 0) (init 0 0) =
            (Inl SphereRadiusNegative, s') \<and>
         objects s' = objects (init 0 0) \<and> world_bodies s' = world_bodies (init 0 0) \<and>
         scene_children s' = scene_children (init 0 0))"
  using torus_physics_sphere[of 2 "Vec3 0 10 0" "(0, 0, 0)" "init 0 0"]
    torus_physics_sphere[of "- 2" "Vec3 0 10 0" "(0, 0, 0)" "init 0 0"]
  by simp

subsection \<open>C9: a paused frame\<close>

text \<open>
  Claim C9. When \<^verbatim>\<open>isPaused\<close> is set, \<^verbatim>\<open>PhysicsEngine.update\<close> returns the state it was
  given, whatever \<^verbatim>\<open>World.step\<close> would do. A frame of \<^verbatim>\<open>animate\<close> is then the copy
  pass of the registry followed by \<^verbatim>\<open>render\<close> and \<^verbatim>\<open>updateStats\<close>: the body store and
  the world are as before the frame, \<^verbatim>\<open>WebGLRenderer.render\<close> has been called once
  more, and in a reachable state every tracked mesh has the position and the
  quaternion of its body.
\<close>

theorem paused_frame:
  assumes "isPaused s"
  shows "PhysicsEngine_update wstep deltaTime s = s \<and>
         animate wstep t t' s =
           updateStats (PhysicsRenderer_render t' (ObjectManager_update (s\<lparr>lastTime := t\<rparr>))) \<and>
         body_heap (animate wstep t t' s) = body_heap s \<and>
         world_bodies (animate wstep t t' s) = world_bodies s \<and>
         render_calls (animate wstep t t' s) = Suc (render_calls s) \<and>
         (reachable s \<longrightarrow>
            (\<forall>obj \<in> set (objects s).
               mesh_position (mesh_heap (animate wstep t t' s) (obj_mesh obj)) =
                 body_position (body_heap s (obj_body obj)) \<and>
               mesh_quaternion (mesh_heap (animate wstep t t' s) (obj_mesh obj)) =
                 body_quaternion (body_heap s (obj_body obj))))"
proof -
  have p: "PhysicsEngine_update wstep d s = s" for d
    using assms by (simp add: PhysicsEngine_update_def)
  have p': "PhysicsEngine_update wstep d (s\<lparr>lastTime := t\<rparr>) = s\<lparr>lastTime := t\<rparr>" for d
    using assms by (simp add: PhysicsEngine_update_def)
  have a: "animate wstep t t' s =
           updateStats (PhysicsRenderer_render t' (ObjectManager_update (s\<lparr>lastTime := t\<rparr>)))"
    by (simp add: animate_def Let_def p')
  have m: "mesh_heap (animate wstep t t' s) = mesh_heap (fold sync_one (objects s) (s\<lparr>lastTime := t\<rparr>))"
    by (simp add: a updateStats_fields render_fields ObjectManager_update_def)
  have sy: "\<forall>obj \<in> set (objects s).
               mesh_position (mesh_heap (animate wstep t t' s) (obj_mesh obj)) =
                 body_position (body_heap s (obj_body obj)) \<and>
               mesh_quaternion (mesh_heap (animate wstep t t' s) (obj_mesh obj)) =
                 body_quaternion (body_heap s (obj_body obj))" if "reachable s"
  proof -
    from reachable_inv[OF that] have "distinct (map obj_mesh (objects s))"
      by (simp add: registry_inv_def refs_ok_def)
    from fold_sync_one_copies[OF this, of _ "s\<lparr>lastTime := t\<rparr>"] show ?thesis
      by (simp add: m)
  qed
  from p a sy show ?thesis
    by (simp add: updateStats_fields render_fields ObjectManager_update_def fold_sync_one_fields)
qed

theorem paused_frame_witness:
  "isPaused (run [box_op, SetPaused True] (init 0 0)) \<and>
   PhysicsEngine_update fall_to_8 (1 / 60) (run [box_op, SetPaused True] (init 0 0)) =
     run [box_op, SetPaused True] (init 0 0) \<and>
   render_calls (animate fall_to_8 16 16 (run [box_op, SetPaused True] (init 0 0))) =
     Suc (render_calls (run [box_op, SetPaused True] (init 0 0))) \<and>
   reachable (run [box_op, SetPaused True] (init 0 0)) \<and>
   mesh_position (mesh_heap (animate fall_to_8 16 16 (run [box_op, SetPaused True] (init 0 0))) 7) =
     Vec3 0 10 0"
proof -
  let ?s = "run [box_op, SetPaused True] (init 0 0)"
  have p: "isPaused ?s" by (rule run_box_paused)
  have r: "reachable ?s" by (rule reachable_run)
  note t = paused_frame[OF p, of fall_to_8 "1 / 60" 16 16]
  from t have 1: "PhysicsEngine_update fall_to_8 (1 / 60) ?s = ?s"
    and 2: "render_calls (animate fall_to_8 16 16 ?s) = Suc (render_calls ?s)" by blast+
  from t r have "\<forall>obj \<in> set (objects ?s).
               mesh_position (mesh_heap (animate fall_to_8 16 16 ?s) (obj_mesh obj)) =
                 body_position (body_heap ?s (obj_body obj))" by blast
  then have 3: "mesh_position (mesh_heap (animate fall_to_8 16 16 ?s) 7) = Vec3 0 10 0"
    unfolding run_box_paused by (simp add: box_entry_def run_box_paused)
  from p r 1 2 3 show ?thesis by simp
qed

subsection \<open>C10: createBody falls back to a unit sphere\<close>

text \<open>
  Claim C10. For a shape description whose type is none of \<^verbatim>\<open>box\<close>, \<^verbatim>\<open>sphere\<close>,
  \<^verbatim>\<open>cylinder\<close>, \<^verbatim>\<open>cone\<close>, \<^verbatim>\<open>createBody\<close> does not reject and does not throw: it
  makes a body with a sphere of radius 1 and the mass it was given, and appends it
  to the world. Every entry that \<^verbatim>\<open>createObject\<close> returns has a body whose shape is
  built from the description that the switch of \<^verbatim>\<open>createObject\<close> gives for the kind,
  the size and the colour of the call, and every description of that switch, for
  any kind, size and colour, has one of the four types: no call that
  \<^verbatim>\<open>createObject\<close> makes takes the fallback.
\<close>

theorem createBody_default_sphere:
  "(desc_type shp \<notin> {''box'', ''sphere'', ''cylinder'', ''cone''} \<longrightarrow>
      (\<exists>b s'. createBody shp m position rnd s = (Inr b, s') \<and>
         shape (body_heap s' b) = Sphere 1 \<and> mass (body_heap s' b) = m \<and>
         world_bodies s' = world_bodies s @ [b])) \<and>
   (\<forall>obj s'. createObject type position size_arg rnd s = (Inr (Some obj), s') \<longrightarrow>
      (\<exists>make_mesh d.
         createObject_switch type (case size_arg of None \<Rightarrow> 2 | Some v \<Rightarrow> v)
           (case colors type of None \<Rightarrow> 65416 | Some v \<Rightarrow> if v = 0 then 65416 else v)
           = Some (make_mesh, d) \<and>
         desc_type d \<in> {''box'', ''sphere'', ''cylinder'', ''cone''} \<and>
         cannonShape d = Inr (shape (body_heap s' (obj_body obj))))) \<and>
   (\<forall>sz c make_mesh d. createObject_switch type sz c = Some (make_mesh, d) \<longrightarrow>
      desc_type d \<in> {''box'', ''sphere'', ''cylinder'', ''cone''})"
proof (intro conjI impI allI)
  fix sz c make_mesh d
  assume "createObject_switch type sz c = Some (make_mesh, d)"
  then show "desc_type d \<in> {''box'', ''sphere'', ''cylinder'', ''cone''}"
    by (rule switch_desc_type)
next
  assume "desc_type shp \<notin> {''box'', ''sphere'', ''cylinder'', ''cone''}"
  then have "cannonShape shp = Inr (Sphere 1)" by (rule createBody_fallback)
  then show "\<exists>b s'. createBody shp m position rnd s = (Inr b, s') \<and>
         shape (body_heap s' b) = Sphere 1 \<and> mass (body_heap s' b) = m \<and>
         world_bodies s' = world_bodies s @ [b]"
    by (cases rnd) (simp add: createBody_def new_body_def world_addBody_def Let_def)
next
  fix obj s'
  assume c: "createObject type position size_arg rnd s = (Inr (Some obj), s')"
  let ?sz = "case size_arg of None \<Rightarrow> 2 | Some v \<Rightarrow> v"
  let ?c = "case colors type of None \<Rightarrow> 65416 | Some v \<Rightarrow> if v = 0 then 65416 else v"
  show "\<exists>make_mesh d. createObject_switch type ?sz ?c = Some (make_mesh, d) \<and>
         desc_type d \<in> {''box'', ''sphere'', ''cylinder'', ''cone''} \<and>
         cannonShape d = Inr (shape (body_heap s' (obj_body obj)))"
  proof (cases "createObject_switch type ?sz ?c")
    case None
    with c show ?thesis by (simp add: createObject_def Let_def)
  next
    case (Some a)
    obtain mk d where a: "a = (mk, d)" by (cases a)
    from Some a switch_SomeD obtain g where mk: "mk = new_mesh g ?c" by blast
    from Some a mk have sw: "createObject_switch type ?sz ?c = Some (new_mesh g ?c, d)" by simp
    have "cannonShape d = Inr (shape (body_heap s' (obj_body obj)))"
    proof (cases "cannonShape d")
      case (Inl e)
      from createObject_thrown[OF sw Inl, of position rnd s] c show ?thesis by auto
    next
      case (Inr cs)
      from createObject_built[OF sw Inr, of position rnd s] c Inr show ?thesis by auto
    qed
    with sw switch_desc_type[OF sw] show ?thesis by blast
  qed
qed

theorem createBody_default_sphere_witness:
  "desc_type (OtherDesc ''torus'') \<notin> {''box'', ''sphere'', ''cylinder'', ''cone''} \<and>
   (\<exists>b s'. createBody (OtherDesc ''torus'') 5 (Vec3 0 10 0) (0, 0, 0) (init 0 0) = (Inr b, s') \<and>
         shape (body_heap s' b) = Sphere 1 \<and> mass (body_heap s' b) = 5 \<and>
         world_bodies s' = world_bodies (init 0 0) @ [b]) \<and>
   (\<exists>make_mesh d.
         createObject_switch ''torus'' (case Some 2 of None \<Rightarrow> 2 | Some v \<Rightarrow> v)
           (case colors ''torus'' of None \<Rightarrow> 65416 | Some v \<Rightarrow> if v = 0 then 65416 else v)
           = Some (make_mesh, d) \<and>
         desc_type d \<in> {''box'', ''sphere'', ''cylinder'', ''cone''} \<and>
         cannonShape d =
           Inr (shape (body_heap
             (snd (createObject ''torus'' (Vec3 0 10 0) (Some 2) (0, 0, 0) (init 0 0))) 8)))"
proof -
  have h: "desc_type (OtherDesc ''torus'') \<notin> {''box'', ''sphere'', ''cylinder'', ''cone''}"
    by simp
  note t = createBody_default_sphere[of "OtherDesc ''torus''" 5 "Vec3 0 10 0" "(0, 0, 0)" "init 0 0"
      "''torus''" "Some 2"]
  from t h have 1: "\<exists>b s'. createBody (OtherDesc ''torus'') 5 (Vec3 0 10 0) (0, 0, 0) (init 0 0) = (Inr b, s') \<and>
         shape (body_heap s' b) = Sphere 1 \<and> mass (body_heap s' b) = 5 \<and>
         world_bodies s' = world_bodies (init 0 0) @ [b]" by blast
  from t torus_at_init have 2: "\<exists>make_mesh d.
         createObject_switch ''torus'' (case Some 2 of None \<Rightarrow> 2 | Some v \<Rightarrow> v)
           (case colors ''torus'' of None \<Rightarrow> 65416 | Some v \<Rightarrow> if v = 0 then 65416 else v)
           = Some (make_mesh, d) \<and>
         desc_type d \<in> {''box'', ''sphere'', ''cylinder'', ''cone''} \<and>
         cannonShape d =
           Inr (shape (body_heap
             (snd (createObject ''torus'' (Vec3 0 10 0) (Some 2) (0, 0, 0) (init 0 0)))
             (obj_body \<lparr>obj_ref = 9, obj_id = 0, obj_type = ''torus'', obj_mesh = 7, obj_body = 8\<rparr>)))"
    by blast
  from h 1 2 show ?thesis by simp
qed

end
